theory Spec2Isabelle
  imports Main "HOL-Library.AList" "HOL-Library.Sublist"
begin

section \<open>JavaScript values\<close>

text \<open>
  The blueprint works on duck-typed option objects and on parsed JSON. One datatype of
  values covers both. An object is the list of its own properties in insertion order
  (the engines' rule that integer-like keys come first is not modelled), each key once
  in a well-formed object and none of them the accessor \<open>__proto__\<close>; numbers are the
  integers; an array has its elements and no named property.
\<close>

datatype jsval =
    JUndefined
  | JNull
  | JBool bool
  | JNum int
  | JStr string
  | JArr "jsval list"
  | JObj "(string \<times> jsval) list"

type_synonym object = "(string \<times> jsval) list"

datatype error =
    SilentError string
  | TypeError
  | RangeError
  | HostError string

text \<open>\<open>Boolean(v)\<close>: what \<open>if\<close>, \<open>||\<close>, \<open>&&\<close> and \<open>filter(Boolean)\<close> test.\<close>

fun truthy :: "jsval \<Rightarrow> bool" where
  "truthy JUndefined = False"
| "truthy JNull = False"
| "truthy (JBool b) = b"
| "truthy (JNum n) = (n \<noteq> 0)"
| "truthy (JStr s) = (s \<noteq> [])"
| "truthy (JArr xs) = True"
| "truthy (JObj kvs) = True"

definition js_or :: "jsval \<Rightarrow> jsval \<Rightarrow> jsval" where
  "js_or a b = (if truthy a then a else b)"

definition js_and :: "jsval \<Rightarrow> jsval \<Rightarrow> jsval" where
  "js_and a b = (if truthy a then b else a)"

text \<open>\<open>options.key\<close> on an object: a missing property reads as \<open>undefined\<close>.\<close>

definition opt :: "object \<Rightarrow> string \<Rightarrow> jsval" where
  "opt options key = (case map_of options key of Some v \<Rightarrow> v | None \<Rightarrow> JUndefined)"

text \<open>
  \<open>v.key\<close> on any value: reading a property of \<open>undefined\<close> or \<open>null\<close> throws a
  TypeError, a primitive or an array has no own property of the names read here.
\<close>

fun get_prop :: "jsval \<Rightarrow> string \<Rightarrow> error + jsval" where
  "get_prop JUndefined key = Inl TypeError"
| "get_prop JNull key = Inl TypeError"
| "get_prop (JObj kvs) key = Inr (opt kvs key)"
| "get_prop v key = Inr JUndefined"

subsection \<open>Strings\<close>

definition digit_char :: "nat \<Rightarrow> char" where
  "digit_char d = char_of (48 + d)"

fun show_nat :: "nat \<Rightarrow> string" where
  "show_nat n = (if n < 10 then [digit_char n] else show_nat (n div 10) @ [digit_char (n mod 10)])"

declare show_nat.simps [simp del]

definition show_int :: "int \<Rightarrow> string" where
  "show_int i = (if i < 0 then CHR ''-'' # show_nat (nat (- i)) else show_nat (nat i))"

text \<open>\<open>Array.prototype.join\<close> on strings already converted.\<close>

fun js_join :: "string \<Rightarrow> string list \<Rightarrow> string" where
  "js_join sep [] = []"
| "js_join sep [x] = x"
| "js_join sep (x # y # ys) = x @ sep @ js_join sep (y # ys)"

text \<open>
  \<open>String(v)\<close>, as a template literal converts its holes. An array joins its
  elements with a comma, an empty text standing for \<open>undefined\<close> and \<open>null\<close>.
\<close>

fun js_toString :: "jsval \<Rightarrow> string" where
  "js_toString JUndefined = ''undefined''"
| "js_toString JNull = ''null''"
| "js_toString (JBool b) = (if b then ''true'' else ''false'')"
| "js_toString (JNum n) = show_int n"
| "js_toString (JStr s) = s"
| "js_toString (JArr xs) =
     js_join '','' (map (\<lambda>x. if x = JUndefined \<or> x = JNull then [] else js_toString x) xs)"
| "js_toString (JObj kvs) = ''[object Object]''"

text \<open>\<open>s.split(c)\<close> for a one-character separator: always at least one piece.\<close>

fun split_on :: "char \<Rightarrow> string \<Rightarrow> string list" where
  "split_on c [] = [[]]"
| "split_on c (x # xs) =
     (case split_on c xs of
        [] \<Rightarrow> [[x]]
      | p # ps \<Rightarrow> if x = c then [] # p # ps else (x # p) # ps)"

section \<open>The libraries and the module's constants\<close>

text \<open>
  What the module requires and does not define: the string utilities, \<open>path.join\<close>,
  the manifest key sort, \<open>JSON.stringify\<close> (value and indent), the entity-name
  normaliser, lodash's \<open>merge\<close> (the state of its first argument after the call), and
  the values read once at load (\<open>__dirname\<close>, the version of the
  blueprint's own manifest, the year). They are parameters of the model.
\<close>

record libs =
  dasherize :: "string \<Rightarrow> string"
  classify :: "string \<Rightarrow> string"
  path_join :: "string list \<Rightarrow> string"
  sortPackageJson :: "jsval \<Rightarrow> jsval"
  JSON_stringify :: "jsval \<Rightarrow> nat \<Rightarrow> string"
  normalize_name :: "jsval \<Rightarrow> error + jsval"
  merge :: "jsval \<Rightarrow> jsval \<Rightarrow> jsval"
  dirname :: string
  blueprintVersion :: jsval
  year :: int

text \<open>The string utilities call \<open>str.replace\<close>: anything but a string throws.\<close>

definition call_dasherize :: "libs \<Rightarrow> jsval \<Rightarrow> error + string" where
  "call_dasherize L v = (case v of JStr s \<Rightarrow> Inr (dasherize L s) | _ \<Rightarrow> Inl TypeError)"

definition call_classify :: "libs \<Rightarrow> jsval \<Rightarrow> error + string" where
  "call_classify L v = (case v of JStr s \<Rightarrow> Inr (classify L s) | _ \<Rightarrow> Inl TypeError)"

text \<open>\<open>path.join\<close> validates that every argument is a string.\<close>

fun strings_of :: "jsval list \<Rightarrow> string list option" where
  "strings_of [] = Some []"
| "strings_of (JStr s # vs) = map_option ((#) s) (strings_of vs)"
| "strings_of (v # vs) = None"

definition call_path_join :: "libs \<Rightarrow> jsval list \<Rightarrow> error + string" where
  "call_path_join L vs =
     (case strings_of vs of Some ss \<Rightarrow> Inr (path_join L ss) | None \<Rightarrow> Inl TypeError)"

definition ADDON_OPTIONS :: "string list" where
  "ADDON_OPTIONS = [''addonLocation'', ''testAppLocation'', ''testAppName'', ''releaseIt'']"

section \<open>Option deriver\<close>

definition addonInfoFromOptions :: "libs \<Rightarrow> object \<Rightarrow> error + jsval" where
  "addonInfoFromOptions L options =
     (let addonEntity = opt options ''entity'' in
      case get_prop addonEntity ''name'' of
        Inl e \<Rightarrow> Inl e
      | Inr addonRawName \<Rightarrow>
          (case call_dasherize L addonRawName of
             Inl e \<Rightarrow> Inl e
           | Inr dashedName \<Rightarrow>
               (case call_classify L addonRawName of
                  Inl e \<Rightarrow> Inl e
                | Inr classified \<Rightarrow>
                    Inr (JObj
                      [(''name'', JObj [(''dashed'', JStr dashedName),
                                        (''classified'', JStr classified),
                                        (''raw'', addonRawName)]),
                       (''entity'', addonEntity),
                       (''location'', js_or (opt options ''addonLocation'') (JStr dashedName))]))))"

definition testAppInfoFromOptions :: "libs \<Rightarrow> object \<Rightarrow> error + jsval" where
  "testAppInfoFromOptions L options =
     (let name = js_or (opt options ''testAppName'') (JStr ''test-app'') in
      case call_dasherize L name of
        Inl e \<Rightarrow> Inl e
      | Inr dashedName \<Rightarrow>
          Inr (JObj
            [(''name'', JObj [(''dashed'', JStr dashedName), (''raw'', name)]),
             (''location'', js_or (opt options ''testAppLocation'') (JStr dashedName))]))"

text \<open>Reading a field of a record built above.\<close>

definition field :: "jsval \<Rightarrow> string \<Rightarrow> jsval" where
  "field v key = (case v of JObj kvs \<Rightarrow> opt kvs key | _ \<Rightarrow> JUndefined)"

section \<open>Template variable builder\<close>

definition array_join :: "string \<Rightarrow> jsval list \<Rightarrow> string" where
  "array_join sep xs =
     js_join sep (map (\<lambda>x. if x = JUndefined \<or> x = JNull then [] else js_toString x) xs)"

definition hasOptions :: "object \<Rightarrow> jsval" where
  "hasOptions options =
     js_or (js_or (opt options ''welcome'') (opt options ''yarn'')) (opt options ''ciProvider'')"

definition indent :: string where
  "indent = ''\<newline>            ''"

definition outdent :: string where
  "outdent = ''\<newline>          ''"

definition separator :: string where
  "separator = '',\<newline>            ''"

text \<open>The array literal of lines 126 to 135, before \<open>filter(Boolean)\<close>.\<close>

definition flag_entries :: "object \<Rightarrow> jsval list" where
  \<open>flag_entries options =
     [js_and (opt options ''welcome'') (JStr ''"--welcome"''),
      js_and (opt options ''yarn'') (JStr ''"--yarn"''),
      js_and (opt options ''vitest'') (JStr ''"--vitest"''),
      js_and (opt options ''ciProvider'')
        (JStr (''"--ci-provider='' @ js_toString (opt options ''ciProvider'') @ ''"'')),
      js_and (opt options ''addonLocation'')
        (JStr (''"--addon-location='' @ js_toString (opt options ''addonLocation'') @ ''"'')),
      js_and (opt options ''testAppLocation'')
        (JStr (''"--test-app-location='' @ js_toString (opt options ''testAppLocation'') @ ''"'')),
      js_and (opt options ''testAppName'')
        (JStr (''"--test-app-name='' @ js_toString (opt options ''testAppName'') @ ''"'')),
      js_and (opt options ''releaseIt'') (JStr ''"--release-it"'')]\<close>

definition blueprintOptions :: "object \<Rightarrow> string" where
  "blueprintOptions options =
     (if truthy (hasOptions options)
      then indent @ array_join separator (filter truthy (flag_entries options)) @ outdent
      else [])"

text \<open>\<open>location.split('/').map(() => '..').join('/')\<close>: only a string has \<open>split\<close>.\<close>

definition pathFromAddonToRoot :: "jsval \<Rightarrow> error + string" where
  "pathFromAddonToRoot location =
     (case location of
        JStr s \<Rightarrow> Inr (js_join ''/'' (map (\<lambda>_. ''..'') (split_on CHR ''/'' s)))
      | _ \<Rightarrow> Inl TypeError)"

definition locals :: "libs \<Rightarrow> object \<Rightarrow> error + jsval" where
  "locals L options =
     (case addonInfoFromOptions L options of
        Inl e \<Rightarrow> Inl e
      | Inr addonInfo \<Rightarrow>
          (case testAppInfoFromOptions L options of
             Inl e \<Rightarrow> Inl e
           | Inr testAppInfo \<Rightarrow>
               (case pathFromAddonToRoot (field addonInfo ''location'') of
                  Inl e \<Rightarrow> Inl e
                | Inr toRoot \<Rightarrow>
                    Inr (JObj
                      [(''addonInfo'', addonInfo),
                       (''testAppInfo'', testAppInfo),
                       (''addonName'', field (field addonInfo ''name'') ''dashed''),
                       (''addonNamespace'', field (field addonInfo ''name'') ''classified''),
                       (''blueprintVersion'', blueprintVersion L),
                       (''year'', JNum (year L)),
                       (''yarn'', opt options ''yarn''),
                       (''vitest'', opt options ''vitest''),
                       (''welcome'', opt options ''welcome''),
                       (''blueprint'', JStr ''addon''),
                       (''blueprintOptions'', JStr (blueprintOptions options)),
                       (''ciProvider'', opt options ''ciProvider''),
                       (''pathFromAddonToRoot'', JStr toRoot)]))))"

section \<open>The host and the outside world\<close>

text \<open>
  Every effect of the module is a call to a collaborator: the nested generator's
  \<open>install\<close>, \<open>fs.writeFile\<close>, \<open>fs.copy\<close> (with its \<open>overwrite\<close> option),
  \<open>fs.remove\<close>, \<open>fs.unlink\<close> and \<open>execa\<close> (command, arguments, options).
\<close>

datatype call =
    Install object
  | WriteFile jsval string
  | Copy jsval jsval bool
  | Remove jsval
  | Unlink jsval
  | Execa string "string list" object

record project =
  isEmberCLIProject :: bool
  isEmberCLIAddon :: bool

text \<open>
  The blueprint object \<open>this\<close> and its environment over a world \<open>'w\<close>: how the world
  answers a call (the new world, and the error when the promise rejects), what
  \<open>require\<close> of a JSON file yields (reading and parsing may both throw), the blueprint
  lookup, the project, and the options the host stored on the blueprint.
\<close>

record 'w env =
  perform :: "call \<Rightarrow> 'w \<Rightarrow> error option \<times> 'w"
  require :: "jsval \<Rightarrow> 'w \<Rightarrow> error + jsval"
  lookupBlueprint :: "string \<Rightarrow> bool"
  project :: project
  this_options :: object

text \<open>A run keeps the calls issued so far, oldest first, beside the world.\<close>

record 'w run =
  trace :: "call list"
  world :: 'w

type_synonym 'w task = "'w run \<Rightarrow> error option \<times> 'w run"

definition invoke :: "'w env \<Rightarrow> call \<Rightarrow> 'w task" where
  "invoke E c s =
     (case perform E c (world s) of
        (r, w') \<Rightarrow> (r, \<lparr>trace = trace s @ [c], world = w'\<rparr>))"

text \<open>
  \<open>Promise.all\<close>: every task has been started, in the order of the array, when the
  promises are awaited; the result is a rejection when one of them rejects. The model
  runs the tasks one after the other in that order and reports the first error in
  that order; how their effects interleave is not modelled.
\<close>

fun promise_all :: "'w task list \<Rightarrow> 'w task" where
  "promise_all [] s = (None, s)"
| "promise_all (t # ts) s =
     (case t s of
        (r, s') \<Rightarrow>
          (case promise_all ts s' of
             (rs, s'') \<Rightarrow> ((case r of Some e \<Rightarrow> Some e | None \<Rightarrow> rs), s'')))"

section \<open>Name normalizer\<close>

definition normalizeEntityName :: "'w env \<Rightarrow> libs \<Rightarrow> jsval \<Rightarrow> 'w run \<Rightarrow> (error + jsval) \<times> 'w run" where
  "normalizeEntityName E L entityName s =
     (case normalize_name L entityName of
        Inl e \<Rightarrow> (Inl e, s)
      | Inr entityName' \<Rightarrow>
          if isEmberCLIProject (project E) \<and> \<not> isEmberCLIAddon (project E)
          then (Inl (SilentError
                  ''Generating an addon in an existing ember-cli project is not supported.''), s)
          else (Inr entityName', s))"

section \<open>Override file relocator\<close>

definition overrideTestAppFiles :: "'w env \<Rightarrow> jsval \<Rightarrow> jsval \<Rightarrow> 'w task" where
  "overrideTestAppFiles E testAppPath overridesPath s =
     (case invoke E (Copy overridesPath testAppPath True) s of
        (Some e, s') \<Rightarrow> (Some e, s')
      | (None, s') \<Rightarrow> invoke E (Remove overridesPath) s')"

definition setupReleaseIt :: "'w env \<Rightarrow> libs \<Rightarrow> jsval \<Rightarrow> 'w task" where
  "setupReleaseIt E L rootPath =
     invoke E (Execa ''create-rwjblue-release-it-setup'' [''--no-install'']
       [(''cwd'', rootPath), (''preferLocal'', JBool True), (''localDir'', JStr (dirname L))])"

section \<open>Package manifest patcher\<close>

text \<open>
  \<open>a[key] = v\<close> on an array: a canonical index below \<open>2^32 - 1\<close> writes the element,
  the array growing with holes (they read as \<open>undefined\<close>) when the index is past its
  end; \<open>length\<close> set to a text that is no number is a RangeError; any other name is a
  named property, which the model of arrays does not keep.
\<close>

definition read_nat :: "string \<Rightarrow> int" where
  "read_nat s = foldl (\<lambda>n c. 10 * n + (of_char c - 48)) 0 s"

definition array_index :: "string \<Rightarrow> nat option" where
  "array_index key =
     (if key \<noteq> [] \<and> list_all (\<lambda>c. (48::int) \<le> of_char c \<and> of_char c \<le> (57::int)) key
         \<and> (key = ''0'' \<or> hd key \<noteq> CHR ''0'') \<and> read_nat key < 4294967295
      then Some (nat (read_nat key)) else None)"

definition assign_elem :: "jsval list \<Rightarrow> string \<Rightarrow> jsval \<Rightarrow> error + jsval list" where
  "assign_elem xs key v =
     (if key = ''length'' then Inl RangeError
      else case array_index key of
             None \<Rightarrow> Inr xs
           | Some i \<Rightarrow>
               if i < length xs then Inr (xs[i := v])
               else Inr (xs @ replicate (i - length xs) JUndefined @ [v]))"

text \<open>
  \<open>pkg.devDependencies[key] = '^0.0.0'\<close> in strict mode: a TypeError when \<open>pkg\<close> has no
  \<open>devDependencies\<close> to write to (it is missing, \<open>null\<close> or a primitive).
\<close>

definition set_devDependency :: "jsval \<Rightarrow> string \<Rightarrow> error + jsval" where
  "set_devDependency pkg key =
     (case pkg of
        JObj kvs \<Rightarrow>
          (case opt kvs ''devDependencies'' of
             JObj deps \<Rightarrow>
               Inr (JObj (AList.update ''devDependencies''
                      (JObj (AList.update key (JStr ''^0.0.0'') deps)) kvs))
           | JArr xs \<Rightarrow>
               (case assign_elem xs key (JStr ''^0.0.0'') of
                  Inl e \<Rightarrow> Inl e
                | Inr xs' \<Rightarrow> Inr (JObj (AList.update ''devDependencies'' (JArr xs') kvs)))
           | _ \<Rightarrow> Inl TypeError)
      | _ \<Rightarrow> Inl TypeError)"

definition updateTestAppPackageJson :: "'w env \<Rightarrow> libs \<Rightarrow> jsval \<Rightarrow> 'w task" where
  "updateTestAppPackageJson E L packageJsonPath s =
     (case require E packageJsonPath (world s) of
        Inl e \<Rightarrow> (Some e, s)
      | Inr pkg \<Rightarrow>
          (case require E (JStr ''./additional-test-app-package.json'') (world s) of
             Inl e \<Rightarrow> (Some e, s)
           | Inr additions \<Rightarrow>
               (let pkg' = merge L pkg additions in
                case locals L (this_options E) of
                  Inl e \<Rightarrow> (Some e, s)
                | Inr ls \<Rightarrow>
                    (case set_devDependency pkg' (js_toString (field ls ''addonName'')) of
                       Inl e \<Rightarrow> (Some e, s)
                     | Inr pkg'' \<Rightarrow>
                         invoke E (WriteFile packageJsonPath
                           (JSON_stringify L (sortPackageJson L pkg'') 2)) s))))"

section \<open>Installer orchestrator\<close>

definition withoutAddonOptions :: "object \<Rightarrow> object" where
  "withoutAddonOptions options =
     fold (\<lambda>(key, value) result.
             if key \<in> set ADDON_OPTIONS then result else AList.update key value result)
       options []"

text \<open>\<open>{...base, k1: v1, ...}\<close>: the later properties overwrite.\<close>

definition spread :: "object \<Rightarrow> object \<Rightarrow> object" where
  "spread base props = fold (\<lambda>(key, value) result. AList.update key value result) props base"

definition appOptions :: "object \<Rightarrow> jsval \<Rightarrow> string \<Rightarrow> object" where
  "appOptions options testAppInfo testAppPath =
     (let raw = field (field testAppInfo ''name'') ''raw'' in
      spread (withoutAddonOptions options)
        [(''target'', JStr testAppPath),
         (''skipNpm'', JBool True),
         (''skipGit'', JBool True),
         (''entity'', JObj [(''name'', raw)]),
         (''name'', raw),
         (''rawName'', raw),
         (''ciProvider'', JStr ''travis''),
         (''welcome'', JBool False)])"

definition vitest_task :: "'w env \<Rightarrow> object \<Rightarrow> 'w task" where
  "vitest_task E options =
     invoke E (Execa ''ember''
       [''new'', ''tests'', ''-b'', ''vitest-blueprint'', ''--skip-git'', ''--skip-npm'']
       [(''cwd'', opt options ''target'')])"

text \<open>
  The three \<open>path.join\<close> calls inside the task array have \<open>options.target\<close> or
  \<open>testAppPath\<close> as first argument and a literal as second; they are evaluated while
  the array is built, the first task already started.
\<close>

definition afterInstall :: "'w env \<Rightarrow> libs \<Rightarrow> object \<Rightarrow> 'w task" where
  "afterInstall E L options s =
     (if \<not> lookupBlueprint E ''app''
      then (Some (SilentError ''Cannot find app blueprint for generating test-app!''), s)
      else case testAppInfoFromOptions L options of
        Inl e \<Rightarrow> (Some e, s)
      | Inr testAppInfo \<Rightarrow>
          (case call_path_join L [opt options ''target'', field testAppInfo ''location''] of
             Inl e \<Rightarrow> (Some e, s)
           | Inr testAppPath \<Rightarrow>
               (case invoke E (Install (appOptions options testAppInfo testAppPath)) s of
                  (Some e, s') \<Rightarrow> (Some e, s')
                | (None, s') \<Rightarrow>
                    (case call_path_join L [opt options ''target'', JStr ''test-app-overrides''] of
                       Inl e \<Rightarrow>
                         (Some e, snd (updateTestAppPackageJson E L
                            (JStr (path_join L [testAppPath, ''package.json''])) s'))
                     | Inr overridesPath \<Rightarrow>
                         promise_all
                           ([updateTestAppPackageJson E L
                               (JStr (path_join L [testAppPath, ''package.json''])),
                             overrideTestAppFiles E (field testAppInfo ''location'')
                               (JStr overridesPath),
                             invoke E (Unlink (JStr (path_join L [testAppPath, ''.travis.yml''])))]
                            @ (if truthy (opt options ''vitest'') then [vitest_task E options] else [])
                            @ (if truthy (opt options ''releaseIt'')
                               then [setupReleaseIt E L (opt options ''target'')] else []))
                           s'))))"

section \<open>Models of the collaborators\<close>

subsection \<open>Recursive merge\<close>

text \<open>
  Modelled from the spec: lodash's \<open>merge\<close> is not part of the sources. The spec asks
  for a standard recursive merge in which the fragment wins on conflicts: objects are
  merged key by key and arrays index by index, both recursively; any other value of
  the fragment replaces the manifest's, except \<open>undefined\<close>, which is skipped where the
  manifest has a value. A fragment object or array meeting a value that is neither is
  merged into an empty one. The result is \<open>None\<close> where the shapes are outside this
  model: a fragment object meeting an array, and a fragment array meeting an
  array-like object (one with a non-negative \<open>length\<close>).
\<close>

definition array_like :: "object \<Rightarrow> bool" where
  "array_like kvs = (case map_of kvs ''length'' of Some (JNum n) \<Rightarrow> 0 \<le> n | _ \<Rightarrow> False)"

fun merge_value :: "jsval option \<Rightarrow> jsval \<Rightarrow> jsval option"
  and merge_obj :: "object \<Rightarrow> object \<Rightarrow> object option"
  and merge_arr :: "jsval list \<Rightarrow> jsval list \<Rightarrow> jsval list option"
where
  "merge_value dv (JObj s) =
     (case dv of
        Some (JObj d) \<Rightarrow> map_option JObj (merge_obj d s)
      | Some (JArr d) \<Rightarrow> None
      | _ \<Rightarrow> map_option JObj (merge_obj [] s))"
| "merge_value dv (JArr s) =
     (case dv of
        Some (JArr d) \<Rightarrow> map_option JArr (merge_arr d s)
      | Some (JObj d) \<Rightarrow> if array_like d then None else map_option JArr (merge_arr [] s)
      | _ \<Rightarrow> map_option JArr (merge_arr [] s))"
| "merge_value dv JUndefined = (case dv of Some v \<Rightarrow> Some v | None \<Rightarrow> Some JUndefined)"
| "merge_value dv JNull = Some JNull"
| "merge_value dv (JBool b) = Some (JBool b)"
| "merge_value dv (JNum n) = Some (JNum n)"
| "merge_value dv (JStr t) = Some (JStr t)"
| "merge_obj d [] = Some d"
| "merge_obj d ((k, sv) # s) =
     (case merge_value (map_of d k) sv of
        None \<Rightarrow> None
      | Some v \<Rightarrow> merge_obj (AList.update k v d) s)"
| "merge_arr d [] = Some d"
| "merge_arr [] (sv # s) =
     (case merge_value None sv of
        None \<Rightarrow> None
      | Some v \<Rightarrow> map_option ((#) v) (merge_arr [] s))"
| "merge_arr (dv # d) (sv # s) =
     (case merge_value (Some dv) sv of
        None \<Rightarrow> None
      | Some v \<Rightarrow> map_option ((#) v) (merge_arr d s))"

definition deep_merge :: "jsval \<Rightarrow> jsval \<Rightarrow> jsval option" where
  "deep_merge object source =
     (case (object, source) of
        (JObj d, JObj s) \<Rightarrow> map_option JObj (merge_obj d s)
      | _ \<Rightarrow> None)"

text \<open>A parsed JSON text repeats no key inside an object.\<close>

fun wf_json :: "jsval \<Rightarrow> bool" where
  "wf_json (JObj kvs) = (distinct (map fst kvs) \<and> list_all (\<lambda>kv. wf_json (snd kv)) kvs)"
| "wf_json (JArr xs) = list_all wf_json xs"
| "wf_json v = True"

subsection \<open>An in-memory file system\<close>

text \<open>
  Modelled from the spec: fs-extra is not part of the sources. The world is the list of
  the regular files, each under the segments of its path; a relative path is resolved
  against the working directory of the process. \<open>copy\<close> lays every file
  under the source over the destination, replacing a file of the same path when
  \<open>overwrite\<close> is set and leaving every other file as it is; it rejects when there is
  nothing at the source or when the destination lies inside the source. \<open>remove\<close>
  deletes everything under a path and accepts a path with nothing under it; \<open>unlink\<close>
  deletes one file and rejects when it is missing.
\<close>

type_synonym files = "(string list \<times> string) list"

definition segments :: "string \<Rightarrow> string list" where
  "segments s = filter (\<lambda>seg. seg \<noteq> [] \<and> seg \<noteq> ''.'') (split_on CHR ''/'' s)"

definition resolve :: "string list \<Rightarrow> jsval \<Rightarrow> string list option" where
  "resolve cwd p =
     (case p of
        JStr s \<Rightarrow> Some (if s \<noteq> [] \<and> hd s = CHR ''/'' then segments s else cwd @ segments s)
      | _ \<Rightarrow> None)"

definition staged :: "string list \<Rightarrow> string list \<Rightarrow> files \<Rightarrow> files" where
  "staged src dst fs =
     map (\<lambda>(p, c). (dst @ drop (length src) p, c)) (filter (\<lambda>(p, c). prefix src p) fs)"

definition put_file :: "bool \<Rightarrow> string list \<times> string \<Rightarrow> files \<Rightarrow> files" where
  "put_file overwrite pc fs =
     (if overwrite \<or> map_of fs (fst pc) = None then AList.update (fst pc) (snd pc) fs else fs)"

definition fs_copy :: "string list \<Rightarrow> string list \<Rightarrow> bool \<Rightarrow> files \<Rightarrow> error option \<times> files" where
  "fs_copy src dst overwrite fs =
     (if staged src dst fs = [] then (Some (HostError ''ENOENT''), fs)
      else if prefix src dst then (Some (HostError ''EINVAL''), fs)
      else (None, fold (put_file overwrite) (staged src dst fs) fs))"

definition fs_remove :: "string list \<Rightarrow> files \<Rightarrow> files" where
  "fs_remove p fs = filter (\<lambda>(q, c). \<not> prefix p q) fs"

definition fs_perform :: "string list \<Rightarrow> call \<Rightarrow> files \<Rightarrow> error option \<times> files" where
  "fs_perform cwd c fs =
     (case c of
        Copy src dst overwrite \<Rightarrow>
          (case (resolve cwd src, resolve cwd dst) of
             (Some a, Some b) \<Rightarrow> fs_copy a b overwrite fs
           | _ \<Rightarrow> (Some TypeError, fs))
      | Remove p \<Rightarrow>
          (case resolve cwd p of Some a \<Rightarrow> (None, fs_remove a fs) | None \<Rightarrow> (Some TypeError, fs))
      | Unlink p \<Rightarrow>
          (case resolve cwd p of
             Some a \<Rightarrow>
               if map_of fs a = None then (Some (HostError ''ENOENT''), fs)
               else (None, filter (\<lambda>(q, c). q \<noteq> a) fs)
           | None \<Rightarrow> (Some TypeError, fs))
      | WriteFile p data \<Rightarrow>
          (case resolve cwd p of
             Some a \<Rightarrow> (None, AList.update a data fs)
           | None \<Rightarrow> (Some TypeError, fs))
      | Install appOpts \<Rightarrow> (None, fs)
      | Execa cmd args eopts \<Rightarrow> (None, fs))"

subsection \<open>A sample of the libraries\<close>

text \<open>
  For evaluating examples: the string utilities on ASCII names, \<open>path.join\<close> as on
  POSIX, the merge above (the manifest as it is where the merge is outside the model),
  a serialiser that escapes the quote, the backslash and the line feed, and the
  identity for the key sort. The key sort is the identity on a manifest whose keys
  are in canonical order already; the sample manifest and fragment below are chosen
  so that the patched manifest is one (\<open>name\<close>, \<open>scripts\<close>, \<open>devDependencies\<close>, the
  entries of the last two in alphabetical order).
\<close>

definition quote :: "string \<Rightarrow> string" where
  \<open>quote s =
     ''"'' @ concat (map (\<lambda>c. if c = CHR 0x22 then [CHR 0x5C, CHR 0x22]
                              else if c = CHR 0x5C then [CHR 0x5C, CHR 0x5C]
                              else if c = CHR 0x0A then [CHR 0x5C, CHR ''n'']
                              else [c]) s) @ ''"''\<close>

fun stringify :: "string \<Rightarrow> string \<Rightarrow> jsval \<Rightarrow> string"
  and stringify_elems :: "string \<Rightarrow> string \<Rightarrow> jsval list \<Rightarrow> string list"
  and stringify_props :: "string \<Rightarrow> string \<Rightarrow> object \<Rightarrow> string list"
where
  "stringify gap cur JUndefined = ''null''"
| "stringify gap cur JNull = ''null''"
| "stringify gap cur (JBool b) = (if b then ''true'' else ''false'')"
| "stringify gap cur (JNum n) = show_int n"
| "stringify gap cur (JStr s) = quote s"
| "stringify gap cur (JArr xs) =
     (if xs = [] then ''[]''
      else if gap = [] then ''['' @ js_join '','' (stringify_elems gap cur xs) @ '']''
      else ''['' @ [CHR 0x0A] @ js_join ('','' @ [CHR 0x0A]) (stringify_elems gap (cur @ gap) xs)
           @ [CHR 0x0A] @ cur @ '']'')"
| "stringify gap cur (JObj kvs) =
     (if stringify_props gap cur kvs = [] then ''{}''
      else if gap = [] then ''{'' @ js_join '','' (stringify_props gap cur kvs) @ ''}''
      else ''{'' @ [CHR 0x0A] @ js_join ('','' @ [CHR 0x0A]) (stringify_props gap (cur @ gap) kvs)
           @ [CHR 0x0A] @ cur @ ''}'')"
| "stringify_elems gap cur [] = []"
| "stringify_elems gap cur (x # xs) =
     ((if gap = [] then [] else cur) @ stringify gap cur x) # stringify_elems gap cur xs"
| "stringify_props gap cur [] = []"
| "stringify_props gap cur ((k, v) # kvs) =
     (if v = JUndefined then stringify_props gap cur kvs
      else ((if gap = [] then quote k @ '':'' else cur @ quote k @ '': '') @ stringify gap cur v)
           # stringify_props gap cur kvs)"

definition sample_stringify :: "jsval \<Rightarrow> nat \<Rightarrow> string" where
  "sample_stringify v n = stringify (replicate (min n 10) CHR '' '') [] v"

definition to_lower :: "char \<Rightarrow> char" where
  "to_lower c = (if (65::nat) \<le> of_char c \<and> of_char c \<le> (90::nat) then char_of (of_char c + (32::nat)) else c)"

definition to_upper :: "char \<Rightarrow> char" where
  "to_upper c = (if (97::nat) \<le> of_char c \<and> of_char c \<le> (122::nat) then char_of (of_char c - (32::nat)) else c)"

definition lower_or_digit :: "char \<Rightarrow> bool" where
  "lower_or_digit c =
     (((97::nat) \<le> of_char c \<and> of_char c \<le> (122::nat)) \<or> ((48::nat) \<le> of_char c \<and> of_char c \<le> (57::nat)))"

fun decamelize :: "string \<Rightarrow> string" where
  "decamelize (a # b # cs) =
     (if lower_or_digit a \<and> to_lower b \<noteq> b
      then to_lower a # CHR ''_'' # decamelize (b # cs)
      else to_lower a # decamelize (b # cs))"
| "decamelize cs = map to_lower cs"

definition ascii_dasherize :: "string \<Rightarrow> string" where
  "ascii_dasherize s = map (\<lambda>c. if c = CHR '' '' \<or> c = CHR ''_'' then CHR ''-'' else c) (decamelize s)"

fun capitalize :: "string \<Rightarrow> string" where
  "capitalize [] = []"
| "capitalize (c # cs) = to_upper c # cs"

definition ascii_classify :: "string \<Rightarrow> string" where
  "ascii_classify s =
     concat (map capitalize (split_on CHR ''-''
       (map (\<lambda>c. if c = CHR '' '' \<or> c = CHR ''_'' \<or> c = CHR ''.'' then CHR ''-'' else c) s)))"

fun norm_segments :: "bool \<Rightarrow> string list \<Rightarrow> string list \<Rightarrow> string list" where
  "norm_segments up [] acc = rev acc"
| "norm_segments up (seg # segs) acc =
     (if seg = [] \<or> seg = ''.'' then norm_segments up segs acc
      else if seg = ''..'' then
        (case acc of
           a # as \<Rightarrow>
             if a \<noteq> ''..'' then norm_segments up segs as
             else norm_segments up segs (if up then seg # acc else acc)
         | [] \<Rightarrow> norm_segments up segs (if up then [seg] else []))
      else norm_segments up segs (seg # acc))"

definition posix_normalize :: "string \<Rightarrow> string" where
  "posix_normalize p =
     (if p = [] then ''.''
      else let absolute = (hd p = CHR ''/'');
               trailing = (last p = CHR ''/'');
               q = js_join ''/'' (norm_segments (\<not> absolute) (split_on CHR ''/'' p) [])
           in if q = [] then (if absolute then ''/'' else if trailing then ''./'' else ''.'')
              else (if absolute then ''/'' else []) @ q @ (if trailing then ''/'' else []))"

definition posix_join :: "string list \<Rightarrow> string" where
  "posix_join args =
     (let parts = filter (\<lambda>a. a \<noteq> []) args
      in if parts = [] then ''.'' else posix_normalize (js_join ''/'' parts))"

definition sample_normalize :: "jsval \<Rightarrow> error + jsval" where
  "sample_normalize entityName =
     (if \<not> truthy entityName then Inl (SilentError ''an entity name is required'')
      else Inr entityName)"

definition sample_libs :: libs where
  "sample_libs =
     \<lparr>dasherize = ascii_dasherize,
      classify = ascii_classify,
      path_join = posix_join,
      sortPackageJson = (\<lambda>v. v),
      JSON_stringify = sample_stringify,
      normalize_name = sample_normalize,
      merge = (\<lambda>a b. case deep_merge a b of Some m \<Rightarrow> m | None \<Rightarrow> a),
      dirname = ''/blueprint'',
      blueprintVersion = JStr ''0.0.0'',
      year = 2024\<rparr>"

text \<open>
  A sample environment over the file system: the nested generator writes nothing,
  \<open>require\<close> knows the manifest of the test app and the bundled fragment.
\<close>

definition sample_manifest :: jsval where
  "sample_manifest =
     JObj [(''name'', JStr ''test-app''),
           (''scripts'', JObj [(''test'', JStr ''ember test'')]),
           (''devDependencies'', JObj [(''ember-source'', JStr ''~4.8.0'')])]"

definition sample_additions :: jsval where
  "sample_additions =
     JObj [(''scripts'', JObj [(''test:ember'', JStr ''ember test'')]),
           (''devDependencies'', JObj [(''ember-try'', JStr ''^2.0.0'')])]"

definition sample_cwd :: "string list" where
  "sample_cwd = [''tmp'', ''x'']"

definition sample_require :: "jsval \<Rightarrow> files \<Rightarrow> error + jsval" where
  "sample_require p fs =
     (if p = JStr ''./additional-test-app-package.json'' then Inr sample_additions
      else case resolve sample_cwd p of
             None \<Rightarrow> Inl TypeError
           | Some a \<Rightarrow>
               if map_of fs a = None then Inl (HostError ''MODULE_NOT_FOUND'')
               else Inr sample_manifest)"

definition sample_options :: object where
  "sample_options = [(''entity'', JObj [(''name'', JStr ''myAddon'')]), (''target'', JStr ''/tmp/x'')]"

definition sample_env :: "files env" where
  "sample_env =
     \<lparr>perform = fs_perform sample_cwd,
      require = sample_require,
      lookupBlueprint = (\<lambda>name. name = ''app''),
      project = \<lparr>isEmberCLIProject = False, isEmberCLIAddon = False\<rparr>,
      this_options = sample_options\<rparr>"

definition sample_files :: files where
  "sample_files =
     [([''tmp'', ''x'', ''test-app'', ''package.json''], ''{}''),
      ([''tmp'', ''x'', ''test-app'', ''.travis.yml''], ''language: node_js''),
      ([''tmp'', ''x'', ''test-app'', ''app'', ''app.js''], ''generated''),
      ([''tmp'', ''x'', ''test-app-overrides'', ''app'', ''router.js''], ''override'')]"

definition sample_run :: "files run" where
  "sample_run = \<lparr>trace = [], world = sample_files\<rparr>"

text \<open>The external process invocations among the calls of a trace.\<close>

fun is_execa :: "call \<Rightarrow> bool" where
  "is_execa (Execa cmd args eopts) = True"
| "is_execa c = False"

subsection \<open>Sample inputs\<close>

definition empty_location_options :: object where
  "empty_location_options =
     [(''entity'', JObj [(''name'', JStr ''my-addon'')]), (''addonLocation'', JStr [])]"

definition falsy_options :: object where
  "falsy_options =
     [(''entity'', JObj [(''name'', JStr ''myAddon'')]),
      (''addonLocation'', JStr []),
      (''testAppName'', JNull),
      (''testAppLocation'', JBool False)]"

definition custom_location_options :: object where
  "custom_location_options =
     [(''entity'', JObj [(''name'', JStr ''myAddon'')]),
      (''addonLocation'', JStr ''packages/my-addon'')]"

definition custom_location_info :: jsval where
  "custom_location_info =
     JObj [(''name'', JObj [(''dashed'', JStr ''my-addon''),
                            (''classified'', JStr ''MyAddon''),
                            (''raw'', JStr ''myAddon'')]),
           (''entity'', JObj [(''name'', JStr ''myAddon'')]),
           (''location'', JStr ''packages/my-addon'')]"

definition app_project_env :: "files env" where
  "app_project_env = sample_env\<lparr>project := \<lparr>isEmberCLIProject = True, isEmberCLIAddon = False\<rparr>\<rparr>"

definition no_overrides_run :: "files run" where
  "no_overrides_run =
     \<lparr>trace = [], world = [([''tmp'', ''x'', ''test-app'', ''package.json''], ''{}'')]\<rparr>"

definition sample_testAppInfo :: jsval where
  "sample_testAppInfo =
     JObj [(''name'', JObj [(''dashed'', JStr ''test-app''), (''raw'', JStr ''test-app'')]),
           (''location'', JStr ''test-app'')]"

definition sample_appOptions :: object where
  "sample_appOptions =
     [(''entity'', JObj [(''name'', JStr ''test-app'')]),
      (''target'', JStr ''/tmp/x/test-app''),
      (''skipNpm'', JBool True),
      (''skipGit'', JBool True),
      (''name'', JStr ''test-app''),
      (''rawName'', JStr ''test-app''),
      (''ciProvider'', JStr ''travis''),
      (''welcome'', JBool False)]"

definition sample_merged :: jsval where
  "sample_merged =
     JObj [(''name'', JStr ''test-app''),
           (''scripts'', JObj [(''test'', JStr ''ember test''),
                               (''test:ember'', JStr ''ember test'')]),
           (''devDependencies'', JObj [(''ember-source'', JStr ''~4.8.0''),
                                       (''ember-try'', JStr ''^2.0.0'')])]"

definition overlaid_run :: "files run" where
  "overlaid_run =
     \<lparr>trace = [Copy (JStr ''test-app-overrides'') (JStr ''test-app'') True,
               Remove (JStr ''test-app-overrides'')],
      world = [([''tmp'', ''x'', ''test-app'', ''package.json''], ''{}''),
               ([''tmp'', ''x'', ''test-app'', ''.travis.yml''], ''language: node_js''),
               ([''tmp'', ''x'', ''test-app'', ''app'', ''app.js''], ''generated''),
               ([''tmp'', ''x'', ''test-app'', ''app'', ''router.js''], ''override'')]\<rparr>"








subsection \<open>The flags fragment in the words of the spec\<close>

text \<open>
  The spec describes the fragment by the flags it contains: those of the supplied
  options out of a list of optional flags, one per line between the indent and the
  outdent. \<open>gate_keys\<close> are the three options the spec names, \<open>flag_keys\<close> all the
  options that have a flag.
\<close>

definition gate_keys :: "string list" where
  "gate_keys = [''welcome'', ''yarn'', ''ciProvider'']"

definition flag_keys :: "string list" where
  "flag_keys = [''welcome'', ''yarn'', ''vitest'', ''ciProvider'', ''addonLocation'',
                ''testAppLocation'', ''testAppName'', ''releaseIt'']"

definition flag_text :: "object \<Rightarrow> string \<Rightarrow> string" where
  \<open>flag_text options key =
     (if key = ''welcome'' then ''"--welcome"''
      else if key = ''yarn'' then ''"--yarn"''
      else if key = ''vitest'' then ''"--vitest"''
      else if key = ''releaseIt'' then ''"--release-it"''
      else if key = ''ciProvider'' then ''"--ci-provider='' @ js_toString (opt options key) @ ''"''
      else if key = ''addonLocation'' then ''"--addon-location='' @ js_toString (opt options key) @ ''"''
      else if key = ''testAppLocation''
        then ''"--test-app-location='' @ js_toString (opt options key) @ ''"''
      else ''"--test-app-name='' @ js_toString (opt options key) @ ''"'')\<close>

definition supplied_flags :: "string list \<Rightarrow> object \<Rightarrow> string list" where
  "supplied_flags keys options =
     map (flag_text options) (filter (\<lambda>key. truthy (opt options key)) keys)"

definition fragment_of :: "string list \<Rightarrow> string" where
  "fragment_of flags = indent @ js_join separator flags @ outdent"

text \<open>One field of the record that \<open>locals\<close> returns.\<close>

definition locals_field :: "libs \<Rightarrow> object \<Rightarrow> string \<Rightarrow> error + jsval" where
  "locals_field L options key =
     (case locals L options of Inl e \<Rightarrow> Inl e | Inr ls \<Rightarrow> Inr (field ls key))"

definition welcome_vitest_options :: object where
  "welcome_vitest_options =
     [(''entity'', JObj [(''name'', JStr ''myAddon'')]),
      (''welcome'', JBool True),
      (''vitest'', JBool True)]"

definition vitest_only_options :: object where
  "vitest_only_options =
     [(''entity'', JObj [(''name'', JStr ''myAddon'')]), (''vitest'', JBool True)]"

subsection \<open>Traces\<close>

text \<open>A task adds calls to the trace; \<open>adds P\<close> says that all of them satisfy \<open>P\<close>.\<close>

definition adds :: "(call \<Rightarrow> bool) \<Rightarrow> 'w task \<Rightarrow> bool" where
  "adds P t = (\<forall>s. \<exists>cs. trace (snd (t s)) = trace s @ cs \<and> list_all P cs)"

text \<open>The keys that \<open>afterInstall\<close> sets on the record for the nested generator.\<close>

definition overridden :: "string list" where
  "overridden = [''target'', ''skipNpm'', ''skipGit'', ''entity'', ''name'', ''rawName'',
                 ''ciProvider'', ''welcome'']"

section \<open>Properties of the option deriver\<close>

lemma opt_delete_other: "k \<noteq> k' \<Longrightarrow> opt (AList.delete k options) k' = opt options k'"
  by (simp add: opt_def delete_conv')

lemma opt_delete_same: "opt (AList.delete k options) k = JUndefined"
  by (simp add: opt_def delete_conv')

lemma js_or_falsy: "\<not> truthy a \<Longrightarrow> js_or a b = b"
  by (simp add: js_or_def)

lemma js_or_undefined: "js_or JUndefined b = b"
  by (simp add: js_or_def)

text \<open>
  C7, as amended. When \<open>addonInfoFromOptions\<close> returns a record, the entity name is a
  string; the location of the record is the dasherized entity name when
  \<open>addonLocation\<close> is missing or falsy, and the value of \<open>addonLocation\<close>, as it is,
  when that value is truthy.
\<close>

theorem addon_location:
  assumes "addonInfoFromOptions L options = Inr info"
  shows "\<exists>raw. get_prop (opt options ''entity'') ''name'' = Inr (JStr raw)
           \<and> (\<not> truthy (opt options ''addonLocation'') \<longrightarrow>
                field info ''location'' = JStr (dasherize L raw))
           \<and> (truthy (opt options ''addonLocation'') \<longrightarrow>
                field info ''location'' = opt options ''addonLocation'')"
  using assms
  by (auto simp: addonInfoFromOptions_def Let_def js_or_def field_def opt_def
                 call_dasherize_def call_classify_def
           split: sum.splits jsval.splits)

theorem addon_location_witness:
  "addonInfoFromOptions sample_libs custom_location_options = Inr custom_location_info
   \<and> truthy (opt custom_location_options ''addonLocation'')
   \<and> field custom_location_info ''location'' = opt custom_location_options ''addonLocation''"
proof -
  have h: "addonInfoFromOptions sample_libs custom_location_options = Inr custom_location_info"
    by code_simp
  have t: "truthy (opt custom_location_options ''addonLocation'')"
    by (simp add: custom_location_options_def opt_def)
  show ?thesis
    using h t addon_location [OF h] by blast
qed

text \<open>
  C7 as stated fails: with the empty string supplied as \<open>addonLocation\<close> for the
  entity \<open>my-addon\<close>, the location is \<open>my-addon\<close> and not the supplied value.
\<close>

theorem supplied_location_counterexample:
  "map_of empty_location_options ''addonLocation'' = Some (JStr [])
   \<and> addonInfoFromOptions sample_libs empty_location_options =
       Inr (JObj [(''name'', JObj [(''dashed'', JStr ''my-addon''),
                                   (''classified'', JStr ''MyAddon''),
                                   (''raw'', JStr ''my-addon'')]),
                  (''entity'', JObj [(''name'', JStr ''my-addon'')]),
                  (''location'', JStr ''my-addon'')])"
  by code_simp

text \<open>
  C10. A falsy \<open>addonLocation\<close>, \<open>testAppName\<close> or \<open>testAppLocation\<close> is treated as an
  absent one: the deriver returns what it returns on the options without that key,
  and the default takes its place.
  \<^item> With a falsy \<open>addonLocation\<close> and the entity named \<open>raw\<close> in the options, the
    location of the addon is the dasherized \<open>raw\<close>.
  \<^item> With a falsy \<open>testAppName\<close>, the test app has the raw name \<open>test-app\<close> and the
    dasherized form of \<open>test-app\<close> as dashed name, and that dashed name is its
    location unless a truthy \<open>testAppLocation\<close> is given.
  \<^item> With a falsy \<open>testAppLocation\<close>, the location of the test app is the dasherized
    name of the test app, which is \<open>testAppName\<close> when that is truthy and \<open>test-app\<close>
    otherwise.
\<close>

theorem falsy_override_is_absent:
  "(\<not> truthy (opt options ''addonLocation'') \<longrightarrow>
      addonInfoFromOptions L options = addonInfoFromOptions L (AList.delete ''addonLocation'' options)
      \<and> (\<forall>raw. get_prop (opt options ''entity'') ''name'' = Inr (JStr raw) \<longrightarrow>
             addonInfoFromOptions L options =
               Inr (JObj [(''name'', JObj [(''dashed'', JStr (dasherize L raw)),
                                           (''classified'', JStr (classify L raw)),
                                           (''raw'', JStr raw)]),
                          (''entity'', opt options ''entity''),
                          (''location'', JStr (dasherize L raw))])))
   \<and> (\<not> truthy (opt options ''testAppName'') \<longrightarrow>
      testAppInfoFromOptions L options = testAppInfoFromOptions L (AList.delete ''testAppName'' options)
      \<and> testAppInfoFromOptions L options =
           Inr (JObj [(''name'', JObj [(''dashed'', JStr (dasherize L ''test-app'')),
                                       (''raw'', JStr ''test-app'')]),
                      (''location'', if truthy (opt options ''testAppLocation'')
                                     then opt options ''testAppLocation''
                                     else JStr (dasherize L ''test-app''))]))
   \<and> (\<not> truthy (opt options ''testAppLocation'') \<longrightarrow>
      testAppInfoFromOptions L options =
        testAppInfoFromOptions L (AList.delete ''testAppLocation'' options)
      \<and> (\<forall>name. (if truthy (opt options ''testAppName'') then opt options ''testAppName''
                   else JStr ''test-app'') = JStr name \<longrightarrow>
             testAppInfoFromOptions L options =
               Inr (JObj [(''name'', JObj [(''dashed'', JStr (dasherize L name)),
                                           (''raw'', JStr name)]),
                          (''location'', JStr (dasherize L name))])))"
proof (intro conjI impI allI)
  assume f: "\<not> truthy (opt options ''addonLocation'')"
  show "addonInfoFromOptions L options = addonInfoFromOptions L (AList.delete ''addonLocation'' options)"
    using f
    by (auto simp: addonInfoFromOptions_def Let_def opt_delete_other opt_delete_same
                   js_or_falsy js_or_undefined
             split: sum.splits)
  fix raw assume "get_prop (opt options ''entity'') ''name'' = Inr (JStr raw)"
  with f show "addonInfoFromOptions L options =
               Inr (JObj [(''name'', JObj [(''dashed'', JStr (dasherize L raw)),
                                           (''classified'', JStr (classify L raw)),
                                           (''raw'', JStr raw)]),
                          (''entity'', opt options ''entity''),
                          (''location'', JStr (dasherize L raw))])"
    by (simp add: addonInfoFromOptions_def Let_def js_or_falsy call_dasherize_def call_classify_def)
next
  assume f: "\<not> truthy (opt options ''testAppName'')"
  show "testAppInfoFromOptions L options = testAppInfoFromOptions L (AList.delete ''testAppName'' options)"
    using f
    by (auto simp: testAppInfoFromOptions_def Let_def opt_delete_other opt_delete_same
                   js_or_falsy js_or_undefined
             split: sum.splits)
  show "testAppInfoFromOptions L options =
           Inr (JObj [(''name'', JObj [(''dashed'', JStr (dasherize L ''test-app'')),
                                       (''raw'', JStr ''test-app'')]),
                      (''location'', if truthy (opt options ''testAppLocation'')
                                     then opt options ''testAppLocation''
                                     else JStr (dasherize L ''test-app''))])"
    using f
    by (simp add: testAppInfoFromOptions_def js_or_falsy call_dasherize_def)
       (simp add: js_or_def)
next
  assume f: "\<not> truthy (opt options ''testAppLocation'')"
  show "testAppInfoFromOptions L options =
      testAppInfoFromOptions L (AList.delete ''testAppLocation'' options)"
    using f
    by (auto simp: testAppInfoFromOptions_def Let_def opt_delete_other opt_delete_same
                   js_or_falsy js_or_undefined
             split: sum.splits)
  fix name
  assume "(if truthy (opt options ''testAppName'') then opt options ''testAppName''
           else JStr ''test-app'') = JStr name"
  then have "js_or (opt options ''testAppName'') (JStr ''test-app'') = JStr name"
    by (simp add: js_or_def)
  with f show "testAppInfoFromOptions L options =
               Inr (JObj [(''name'', JObj [(''dashed'', JStr (dasherize L name)),
                                           (''raw'', JStr name)]),
                          (''location'', JStr (dasherize L name))])"
    by (simp add: testAppInfoFromOptions_def Let_def js_or_falsy call_dasherize_def)
qed

theorem falsy_override_is_absent_witness:
  "\<not> truthy (opt falsy_options ''addonLocation'')
   \<and> \<not> truthy (opt falsy_options ''testAppName'')
   \<and> \<not> truthy (opt falsy_options ''testAppLocation'')
   \<and> get_prop (opt falsy_options ''entity'') ''name'' = Inr (JStr ''myAddon'')
   \<and> addonInfoFromOptions sample_libs falsy_options =
       Inr (JObj [(''name'', JObj [(''dashed'', JStr ''my-addon''),
                                   (''classified'', JStr ''MyAddon''),
                                   (''raw'', JStr ''myAddon'')]),
                  (''entity'', JObj [(''name'', JStr ''myAddon'')]),
                  (''location'', JStr ''my-addon'')])
   \<and> testAppInfoFromOptions sample_libs falsy_options =
       Inr (JObj [(''name'', JObj [(''dashed'', JStr ''test-app''), (''raw'', JStr ''test-app'')]),
                  (''location'', JStr ''test-app'')])"
proof -
  have h: "\<not> truthy (opt falsy_options ''addonLocation'')"
      "\<not> truthy (opt falsy_options ''testAppName'')"
      "\<not> truthy (opt falsy_options ''testAppLocation'')"
    by (simp_all add: falsy_options_def opt_def)
  have e: "opt falsy_options ''entity'' = JObj [(''name'', JStr ''myAddon'')]"
    by (simp add: falsy_options_def opt_def)
  have n: "get_prop (opt falsy_options ''entity'') ''name'' = Inr (JStr ''myAddon'')"
    unfolding e by (simp add: opt_def)
  have d: "dasherize sample_libs ''myAddon'' = ''my-addon''"
      "classify sample_libs ''myAddon'' = ''MyAddon''"
      "dasherize sample_libs ''test-app'' = ''test-app''"
    by code_simp+
  have a: "addonInfoFromOptions sample_libs falsy_options =
      Inr (JObj [(''name'', JObj [(''dashed'', JStr (dasherize sample_libs ''myAddon'')),
                                  (''classified'', JStr (classify sample_libs ''myAddon'')),
                                  (''raw'', JStr ''myAddon'')]),
                 (''entity'', opt falsy_options ''entity''),
                 (''location'', JStr (dasherize sample_libs ''myAddon''))])"
    using falsy_override_is_absent [of falsy_options sample_libs] h(1) n by blast
  have t: "testAppInfoFromOptions sample_libs falsy_options =
      Inr (JObj [(''name'', JObj [(''dashed'', JStr (dasherize sample_libs ''test-app'')),
                                  (''raw'', JStr ''test-app'')]),
                 (''location'', if truthy (opt falsy_options ''testAppLocation'')
                                then opt falsy_options ''testAppLocation''
                                else JStr (dasherize sample_libs ''test-app''))])"
    using falsy_override_is_absent [of falsy_options sample_libs] h(2) by blast
  show ?thesis
    using h n a t by (simp add: d e)
qed

section \<open>Properties of the name normalizer\<close>

text \<open>
  C9. In an ember-cli project that is not an addon, \<open>normalizeEntityName\<close> raises for
  every entity name: the error of the normaliser when the name itself is rejected,
  otherwise the error saying that generating an addon in an existing project is not
  supported. In any other project it returns what the normaliser returns. In both
  cases the run is left as it was.
\<close>

theorem normalizeEntityName_guard:
  "(isEmberCLIProject (project E) \<and> \<not> isEmberCLIAddon (project E) \<longrightarrow>
      normalizeEntityName E L entityName s =
        (Inl (case normalize_name L entityName of
                Inl e \<Rightarrow> e
              | Inr n \<Rightarrow> SilentError
                  ''Generating an addon in an existing ember-cli project is not supported.''), s))
   \<and> (\<not> (isEmberCLIProject (project E) \<and> \<not> isEmberCLIAddon (project E)) \<longrightarrow>
      normalizeEntityName E L entityName s = (normalize_name L entityName, s))"
  by (auto simp: normalizeEntityName_def split: sum.splits)

theorem normalizeEntityName_guard_witness:
  "isEmberCLIProject (project app_project_env) \<and> \<not> isEmberCLIAddon (project app_project_env)
   \<and> normalizeEntityName app_project_env sample_libs (JStr ''my-addon'') sample_run =
       (Inl (SilentError ''Generating an addon in an existing ember-cli project is not supported.''),
        sample_run)
   \<and> \<not> (isEmberCLIProject (project sample_env) \<and> \<not> isEmberCLIAddon (project sample_env))
   \<and> normalizeEntityName sample_env sample_libs (JStr ''my-addon'') sample_run =
       (Inr (JStr ''my-addon''), sample_run)"
proof -
  have p: "isEmberCLIProject (project app_project_env) \<and> \<not> isEmberCLIAddon (project app_project_env)"
    by (simp add: app_project_env_def)
  have q: "\<not> (isEmberCLIProject (project sample_env) \<and> \<not> isEmberCLIAddon (project sample_env))"
    by (simp add: sample_env_def)
  have n: "normalize_name sample_libs (JStr ''my-addon'') = Inr (JStr ''my-addon'')"
    by (simp add: sample_libs_def sample_normalize_def)
  show ?thesis
    using p q n
      normalizeEntityName_guard [of app_project_env sample_libs "JStr ''my-addon''" sample_run]
      normalizeEntityName_guard [of sample_env sample_libs "JStr ''my-addon''" sample_run]
    by simp
qed

section \<open>Properties of the override file relocator\<close>

text \<open>
  C3. When the copy of the staging directory rejects, \<open>overrideTestAppFiles\<close> rejects
  with the same error, the copy is the only call it has issued and the world is as the
  copy left it: the staging directory is not removed. When the copy succeeds, the
  removal of the staging directory is the next and last call.
\<close>

theorem remove_only_after_copy:
  "(perform E (Copy overridesPath testAppPath True) (world s) = (Some e, w') \<longrightarrow>
      overrideTestAppFiles E testAppPath overridesPath s =
        (Some e, \<lparr>trace = trace s @ [Copy overridesPath testAppPath True], world = w'\<rparr>))
   \<and> (perform E (Copy overridesPath testAppPath True) (world s) = (None, w') \<longrightarrow>
      overrideTestAppFiles E testAppPath overridesPath s =
        invoke E (Remove overridesPath)
          \<lparr>trace = trace s @ [Copy overridesPath testAppPath True], world = w'\<rparr>
      \<and> trace (snd (overrideTestAppFiles E testAppPath overridesPath s)) =
          trace s @ [Copy overridesPath testAppPath True, Remove overridesPath])"
  by (auto simp: overrideTestAppFiles_def invoke_def split: prod.splits option.splits)

theorem remove_only_after_copy_witness:
  "perform sample_env (Copy (JStr ''test-app-overrides'') (JStr ''test-app'') True)
       (world no_overrides_run) = (Some (HostError ''ENOENT''), world no_overrides_run)
   \<and> overrideTestAppFiles sample_env (JStr ''test-app'') (JStr ''test-app-overrides'') no_overrides_run =
       (Some (HostError ''ENOENT''),
        \<lparr>trace = trace no_overrides_run @ [Copy (JStr ''test-app-overrides'') (JStr ''test-app'') True],
         world = world no_overrides_run\<rparr>)"
proof -
  have h: "perform sample_env (Copy (JStr ''test-app-overrides'') (JStr ''test-app'') True)
       (world no_overrides_run) = (Some (HostError ''ENOENT''), world no_overrides_run)"
    by code_simp
  show ?thesis
    using h remove_only_after_copy [of sample_env "JStr ''test-app-overrides''" "JStr ''test-app''"
        no_overrides_run "HostError ''ENOENT''" "world no_overrides_run"]
    by blast
qed

section \<open>Properties of the template variable builder\<close>

lemma kept_flags:
  "\<forall>(a, t) \<in> set pairs. t \<noteq> [] \<Longrightarrow>
   map (\<lambda>x. if x = JUndefined \<or> x = JNull then [] else js_toString x)
     (filter truthy (map (\<lambda>(a, t). js_and a (JStr t)) pairs)) =
   map snd (filter (\<lambda>(a, t). truthy a) pairs)"
  by (induction pairs) (auto simp: js_and_def split: if_splits)

lemma supplied_flags_pairs:
  "supplied_flags keys options =
   map snd (filter (\<lambda>(a, t). truthy a) (map (\<lambda>key. (opt options key, flag_text options key)) keys))"
  by (induction keys) (auto simp: supplied_flags_def)

lemma flag_entries_pairs:
  "flag_entries options =
   map (\<lambda>(a, t). js_and a (JStr t)) (map (\<lambda>key. (opt options key, flag_text options key)) flag_keys)"
  by (simp add: flag_entries_def flag_keys_def flag_text_def)

lemma flag_text_nonempty: "flag_text options key \<noteq> []"
  by (simp add: flag_text_def)

lemma kept_entries:
  "array_join sep (filter truthy (flag_entries options)) = js_join sep (supplied_flags flag_keys options)"
proof -
  have "\<forall>(a, t) \<in> set (map (\<lambda>key. (opt options key, flag_text options key)) flag_keys). t \<noteq> []"
    by (auto simp: flag_text_nonempty)
  then show ?thesis
    unfolding array_join_def flag_entries_pairs supplied_flags_pairs
    by (simp only: kept_flags)
qed

lemma gate_truthy:
  "truthy (hasOptions options) = list_ex (\<lambda>key. truthy (opt options key)) gate_keys"
  by (auto simp: hasOptions_def js_or_def gate_keys_def)

lemma blueprintOptions_fragment:
  "blueprintOptions options =
     (if list_ex (\<lambda>key. truthy (opt options key)) gate_keys
      then fragment_of (supplied_flags flag_keys options) else [])"
  by (simp add: blueprintOptions_def gate_truthy kept_entries fragment_of_def)

lemma locals_blueprintOptions:
  "locals L options = Inr ls \<Longrightarrow> field ls ''blueprintOptions'' = JStr (blueprintOptions options)"
  by (auto simp: locals_def field_def opt_def split: sum.splits)

text \<open>
  C1, as amended. The fragment returned by \<open>locals\<close> is empty when none of \<open>welcome\<close>,
  \<open>yarn\<close> and \<open>ciProvider\<close> is truthy. When one of them is, it is not empty: it is
  the indent, the flags of the truthy options out of \<open>welcome\<close>, \<open>yarn\<close>, \<open>vitest\<close>,
  \<open>ciProvider\<close>, \<open>addonLocation\<close>, \<open>testAppLocation\<close>, \<open>testAppName\<close> and
  \<open>releaseIt\<close>, in this order and separated by a comma and a line break, and the
  outdent; these flags and no others.
\<close>

theorem flags_fragment:
  assumes "locals L options = Inr ls"
  shows "(\<not> list_ex (\<lambda>key. truthy (opt options key)) gate_keys \<longrightarrow>
            field ls ''blueprintOptions'' = JStr [])
         \<and> (list_ex (\<lambda>key. truthy (opt options key)) gate_keys \<longrightarrow>
            field ls ''blueprintOptions'' = JStr (fragment_of (supplied_flags flag_keys options))
            \<and> fragment_of (supplied_flags flag_keys options) \<noteq> []
            \<and> set (supplied_flags flag_keys options) =
                flag_text options ` {key \<in> set flag_keys. truthy (opt options key)})"
  using locals_blueprintOptions [OF assms]
  by (auto simp: blueprintOptions_fragment fragment_of_def indent_def supplied_flags_def)

theorem flags_fragment_witness:
  "locals_field sample_libs welcome_vitest_options ''blueprintOptions'' =
     Inr (JStr (fragment_of (supplied_flags flag_keys welcome_vitest_options)))
   \<and> list_ex (\<lambda>key. truthy (opt welcome_vitest_options key)) gate_keys"
proof -
  obtain ls where h: "locals sample_libs welcome_vitest_options = Inr ls"
    by (cases "locals sample_libs welcome_vitest_options")
       (simp_all add: locals_def addonInfoFromOptions_def welcome_vitest_options_def opt_def
          call_dasherize_def call_classify_def sample_libs_def testAppInfoFromOptions_def
          js_or_def pathFromAddonToRoot_def field_def Let_def)
  have g: "list_ex (\<lambda>key. truthy (opt welcome_vitest_options key)) gate_keys"
    by (simp add: gate_keys_def welcome_vitest_options_def opt_def)
  show ?thesis
    using g h flags_fragment [OF h] by (simp add: locals_field_def)
qed

text \<open>
  C1 as stated fails. With \<open>welcome\<close> and \<open>vitest\<close> set, the fragment holds the flag
  of \<open>vitest\<close> beside the one of \<open>welcome\<close>, the only supplied flag out of the three
  the claim names. With \<open>vitest\<close> alone, a flag is supplied and the fragment is empty.
\<close>

theorem flags_fragment_counterexample:
  \<open>locals_field sample_libs welcome_vitest_options ''blueprintOptions'' =
     Inr (JStr (fragment_of [''"--welcome"'', ''"--vitest"'']))
   \<and> supplied_flags gate_keys welcome_vitest_options = [''"--welcome"'']
   \<and> supplied_flags flag_keys vitest_only_options = [''"--vitest"'']
   \<and> locals_field sample_libs vitest_only_options ''blueprintOptions'' = Inr (JStr [])\<close>
  by code_simp

section \<open>Properties of the installer orchestrator\<close>

lemma addsI:
  "(\<And>s. \<exists>cs. trace (snd (t s)) = trace s @ cs \<and> list_all P cs) \<Longrightarrow> adds P t"
  by (simp add: adds_def)

lemma trace_invoke: "trace (snd (invoke E c s)) = trace s @ [c]"
  by (simp add: invoke_def split: prod.splits)

lemma adds_invoke: "P c \<Longrightarrow> adds P (invoke E c)"
  by (rule addsI) (simp add: trace_invoke)

lemma adds_updateTestAppPackageJson:
  "(\<And>p d. P (WriteFile p d)) \<Longrightarrow> adds P (updateTestAppPackageJson E L p)"
proof (rule addsI)
  fix s
  assume "\<And>p d. P (WriteFile p d)"
  then show "\<exists>cs. trace (snd (updateTestAppPackageJson E L p s)) = trace s @ cs \<and> list_all P cs"
    by (auto simp: updateTestAppPackageJson_def Let_def trace_invoke split: sum.splits)
qed

lemma adds_overrideTestAppFiles:
  assumes "P (Copy b a True)" "P (Remove b)"
  shows "adds P (overrideTestAppFiles E a b)"
proof (rule addsI)
  fix s
  obtain r s' where c: "invoke E (Copy b a True) s = (r, s')"
    by (cases "invoke E (Copy b a True) s")
  have t: "trace s' = trace s @ [Copy b a True]"
    using trace_invoke [of E "Copy b a True" s] c by simp
  show "\<exists>cs. trace (snd (overrideTestAppFiles E a b s)) = trace s @ cs \<and> list_all P cs"
  proof (cases r)
    case None
    then have "trace (snd (overrideTestAppFiles E a b s)) = trace s @ [Copy b a True, Remove b]"
      using c t by (simp add: overrideTestAppFiles_def trace_invoke)
    then show ?thesis using assms by simp
  next
    case (Some e)
    then have "trace (snd (overrideTestAppFiles E a b s)) = trace s @ [Copy b a True]"
      using c t by (simp add: overrideTestAppFiles_def)
    then show ?thesis using assms by simp
  qed
qed

lemma adds_promise_all: "\<forall>t \<in> set ts. adds P t \<Longrightarrow> adds P (promise_all ts)"
proof (induction ts)
  case Nil
  show ?case by (rule addsI) simp
next
  case (Cons t ts)
  have qt: "adds P t" and qts: "adds P (promise_all ts)"
    using Cons by simp_all
  show ?case
  proof (rule addsI)
    fix s
    obtain r s' where a: "t s = (r, s')" by (cases "t s")
    obtain rs s'' where b: "promise_all ts s' = (rs, s'')" by (cases "promise_all ts s'")
    from qt a obtain cs where 1: "trace s' = trace s @ cs" "list_all P cs"
      unfolding adds_def by (metis snd_conv)
    from qts b obtain ds where 2: "trace s'' = trace s' @ ds" "list_all P ds"
      unfolding adds_def by (metis snd_conv)
    have "trace (snd (promise_all (t # ts) s)) = trace s @ (cs @ ds)"
      using a b 1 2 by simp
    moreover have "list_all P (cs @ ds)"
      using 1 2 by simp
    ultimately show "\<exists>cs. trace (snd (promise_all (t # ts) s)) = trace s @ cs \<and> list_all P cs"
      by blast
  qed
qed

text \<open>
  What \<open>afterInstall\<close> adds to the trace once the test app is known: the call of the
  nested generator, then calls of the follow-up tasks.
\<close>

lemma afterInstall_trace:
  assumes "lookupBlueprint E ''app''"
      "testAppInfoFromOptions L options = Inr testAppInfo"
      "call_path_join L [opt options ''target'', field testAppInfo ''location''] = Inr testAppPath"
      "\<And>p d. P (WriteFile p d)" "\<And>a b. P (Copy a b True)" "\<And>p. P (Remove p)" "\<And>p. P (Unlink p)"
      "truthy (opt options ''vitest'') \<Longrightarrow> (\<And>c a e. P (Execa c a e))"
      "truthy (opt options ''releaseIt'') \<Longrightarrow> (\<And>c a e. P (Execa c a e))"
  shows "\<exists>cs. trace (snd (afterInstall E L options s)) =
           trace s @ Install (appOptions options testAppInfo testAppPath) # cs \<and> list_all P cs"
proof -
  let ?c = "Install (appOptions options testAppInfo testAppPath)"
  let ?pkg = "updateTestAppPackageJson E L (JStr (path_join L [testAppPath, ''package.json'']))"
  obtain r s' where inst: "invoke E ?c s = (r, s')" by (cases "invoke E ?c s")
  have t: "trace s' = trace s @ [?c]"
    using trace_invoke [of E ?c s] inst by simp
  have ext: "\<exists>cs. trace (snd (u s')) = trace s @ ?c # cs \<and> list_all P cs" if "adds P u" for u
  proof -
    from that obtain cs where "trace (snd (u s')) = trace s' @ cs" "list_all P cs"
      unfolding adds_def by blast
    then show ?thesis using t by simp
  qed
  have pkg: "adds P ?pkg"
    using assms(4) by (rule adds_updateTestAppPackageJson)
  show ?thesis
  proof (cases r)
    case (Some e)
    then show ?thesis using assms(1-3) inst t by (simp add: afterInstall_def)
  next
    case None
    show ?thesis
    proof (cases "call_path_join L [opt options ''target'', JStr ''test-app-overrides'']")
      case (Inl e)
      then have "trace (snd (afterInstall E L options s)) = trace (snd (?pkg s'))"
        using assms(1-3) inst None by (simp add: afterInstall_def)
      then show ?thesis using ext [OF pkg] by simp
    next
      case (Inr overridesPath)
      let ?tasks = "[?pkg,
          overrideTestAppFiles E (field testAppInfo ''location'') (JStr overridesPath),
          invoke E (Unlink (JStr (path_join L [testAppPath, ''.travis.yml''])))]
         @ (if truthy (opt options ''vitest'') then [vitest_task E options] else [])
         @ (if truthy (opt options ''releaseIt'')
            then [setupReleaseIt E L (opt options ''target'')] else [])"
      have "\<forall>u \<in> set ?tasks. adds P u"
        using pkg assms(5-9)
        by (auto simp: vitest_task_def setupReleaseIt_def
                 intro: adds_overrideTestAppFiles adds_invoke)
      then have a: "adds P (promise_all ?tasks)"
        by (rule adds_promise_all)
      have e: "afterInstall E L options s = promise_all ?tasks s'"
        using assms(1-3) inst None Inr by (simp add: afterInstall_def)
      show ?thesis
        unfolding e by (rule ext [OF a])
    qed
  qed
qed

text \<open>
  C8. When neither \<open>vitest\<close> nor \<open>releaseIt\<close> is truthy, \<open>afterInstall\<close> starts no
  external process, whatever the environment answers and whether it succeeds or not:
  the process invocations in the trace are those that were there before.
\<close>

theorem no_process_without_vitest_and_releaseIt:
  assumes "\<not> truthy (opt options ''vitest'')" "\<not> truthy (opt options ''releaseIt'')"
  shows "filter is_execa (trace (snd (afterInstall E L options s))) = filter is_execa (trace s)"
proof (cases "lookupBlueprint E ''app''")
  case False
  then show ?thesis by (simp add: afterInstall_def)
next
  case lb: True
  show ?thesis
  proof (cases "testAppInfoFromOptions L options")
    case (Inl e)
    then show ?thesis using lb by (simp add: afterInstall_def)
  next
    case info: (Inr testAppInfo)
    show ?thesis
    proof (cases "call_path_join L [opt options ''target'', field testAppInfo ''location'']")
      case (Inl e)
      then show ?thesis using lb info by (simp add: afterInstall_def)
    next
      case (Inr testAppPath)
      have "\<exists>cs. trace (snd (afterInstall E L options s)) =
              trace s @ Install (appOptions options testAppInfo testAppPath) # cs
              \<and> list_all (\<lambda>c. \<not> is_execa c) cs"
        using assms by (intro afterInstall_trace [OF lb info Inr]) simp_all
      then obtain cs where "trace (snd (afterInstall E L options s)) =
              trace s @ Install (appOptions options testAppInfo testAppPath) # cs"
          "list_all (\<lambda>c. \<not> is_execa c) cs"
        by blast
      then show ?thesis
        by (simp add: list_all_iff filter_empty_conv)
    qed
  qed
qed

theorem no_process_without_vitest_and_releaseIt_witness:
  "\<not> truthy (opt sample_options ''vitest'') \<and> \<not> truthy (opt sample_options ''releaseIt'')
   \<and> filter is_execa (trace (snd (afterInstall sample_env sample_libs sample_options sample_run))) =
       filter is_execa (trace sample_run)"
proof -
  have h: "\<not> truthy (opt sample_options ''vitest'')" "\<not> truthy (opt sample_options ''releaseIt'')"
    by (simp_all add: sample_options_def opt_def)
  show ?thesis
    using h no_process_without_vitest_and_releaseIt [OF h, of sample_env sample_libs sample_run]
    by blast
qed

lemma map_of_withoutAddonOptions_fold:
  "distinct (map fst xs) \<Longrightarrow>
   map_of (fold (\<lambda>(key, value) result.
                  if key \<in> set ADDON_OPTIONS then result else AList.update key value result) xs acc) k =
   (if k \<in> set ADDON_OPTIONS \<or> map_of xs k = None then map_of acc k else map_of xs k)"
proof (induction xs arbitrary: acc)
  case Nil
  show ?case by simp
next
  case (Cons x xs)
  obtain key v where x: "x = (key, v)" by (cases x)
  have d: "distinct (map fst xs)" and n: "key \<notin> fst ` set xs"
    using Cons.prems x by auto
  have none: "map_of xs key = None"
    using n by (simp add: map_of_eq_None_iff)
  show ?case
    using Cons.IH [OF d] none by (auto simp: x update_conv')
qed

lemma map_of_withoutAddonOptions:
  "distinct (map fst options) \<Longrightarrow>
   map_of (withoutAddonOptions options) k = (if k \<in> set ADDON_OPTIONS then None else map_of options k)"
  by (simp add: withoutAddonOptions_def map_of_withoutAddonOptions_fold)

lemma map_of_appOptions:
  "map_of (appOptions options testAppInfo testAppPath) =
     (map_of (withoutAddonOptions options))
       (''target'' \<mapsto> JStr testAppPath,
        ''skipNpm'' \<mapsto> JBool True,
        ''skipGit'' \<mapsto> JBool True,
        ''entity'' \<mapsto> JObj [(''name'', field (field testAppInfo ''name'') ''raw'')],
        ''name'' \<mapsto> field (field testAppInfo ''name'') ''raw'',
        ''rawName'' \<mapsto> field (field testAppInfo ''name'') ''raw'',
        ''ciProvider'' \<mapsto> JStr ''travis'',
        ''welcome'' \<mapsto> JBool False)"
  by (simp add: appOptions_def spread_def Let_def update_conv')

lemma testAppInfo_raw:
  "testAppInfoFromOptions L options = Inr testAppInfo \<Longrightarrow>
   field (field testAppInfo ''name'') ''raw'' = js_or (opt options ''testAppName'') (JStr ''test-app'')"
  by (auto simp: testAppInfoFromOptions_def Let_def field_def opt_def split: sum.splits)

text \<open>
  C2, as amended. When \<open>afterInstall\<close> reaches the nested generator, the record it
  passes has none of the addon options; \<open>skipNpm\<close> and \<open>skipGit\<close> are \<open>true\<close>; the
  entity (an object with the one field \<open>name\<close>), \<open>name\<close> and \<open>rawName\<close> are the raw
  name of the test app; \<open>welcome\<close> is \<open>false\<close>; \<open>ciProvider\<close> is \<open>travis\<close>; \<open>target\<close> is
  the path of the test app, joined from the target of the addon and the location of
  the test app; every other key has the value it has in the options.
\<close>

theorem nested_generator_options:
  assumes "distinct (map fst options)"
      "lookupBlueprint E ''app''"
      "testAppInfoFromOptions L options = Inr testAppInfo"
      "call_path_join L [opt options ''target'', field testAppInfo ''location''] = Inr testAppPath"
  shows "(\<exists>cs. trace (snd (afterInstall E L options s)) =
            trace s @ Install (appOptions options testAppInfo testAppPath) # cs)
         \<and> (\<forall>key \<in> set ADDON_OPTIONS.
              map_of (appOptions options testAppInfo testAppPath) key = None)
         \<and> opt (appOptions options testAppInfo testAppPath) ''skipNpm'' = JBool True
         \<and> opt (appOptions options testAppInfo testAppPath) ''skipGit'' = JBool True
         \<and> opt (appOptions options testAppInfo testAppPath) ''entity'' =
             JObj [(''name'', js_or (opt options ''testAppName'') (JStr ''test-app''))]
         \<and> opt (appOptions options testAppInfo testAppPath) ''name'' =
             js_or (opt options ''testAppName'') (JStr ''test-app'')
         \<and> opt (appOptions options testAppInfo testAppPath) ''rawName'' =
             js_or (opt options ''testAppName'') (JStr ''test-app'')
         \<and> opt (appOptions options testAppInfo testAppPath) ''welcome'' = JBool False
         \<and> opt (appOptions options testAppInfo testAppPath) ''ciProvider'' = JStr ''travis''
         \<and> opt (appOptions options testAppInfo testAppPath) ''target'' = JStr testAppPath
         \<and> (\<forall>key. key \<notin> set ADDON_OPTIONS \<longrightarrow> key \<notin> set overridden \<longrightarrow>
              map_of (appOptions options testAppInfo testAppPath) key = map_of options key)"
proof -
  have "\<exists>cs. trace (snd (afterInstall E L options s)) =
          trace s @ Install (appOptions options testAppInfo testAppPath) # cs
          \<and> list_all (\<lambda>c. True) cs"
    by (rule afterInstall_trace [OF assms(2-4)]) simp_all
  then have first: "\<exists>cs. trace (snd (afterInstall E L options s)) =
          trace s @ Install (appOptions options testAppInfo testAppPath) # cs"
    by blast
  have stripped: "\<forall>key \<in> set ADDON_OPTIONS.
      map_of (appOptions options testAppInfo testAppPath) key = None"
    by (simp add: map_of_appOptions map_of_withoutAddonOptions [OF assms(1)] ADDON_OPTIONS_def)
  have kept: "\<forall>key. key \<notin> set ADDON_OPTIONS \<longrightarrow> key \<notin> set overridden \<longrightarrow>
      map_of (appOptions options testAppInfo testAppPath) key = map_of options key"
    by (simp add: map_of_appOptions map_of_withoutAddonOptions [OF assms(1)] overridden_def)
  have set_keys:
    "opt (appOptions options testAppInfo testAppPath) ''skipNpm'' = JBool True"
    "opt (appOptions options testAppInfo testAppPath) ''skipGit'' = JBool True"
    "opt (appOptions options testAppInfo testAppPath) ''entity'' =
       JObj [(''name'', js_or (opt options ''testAppName'') (JStr ''test-app''))]"
    "opt (appOptions options testAppInfo testAppPath) ''name'' =
       js_or (opt options ''testAppName'') (JStr ''test-app'')"
    "opt (appOptions options testAppInfo testAppPath) ''rawName'' =
       js_or (opt options ''testAppName'') (JStr ''test-app'')"
    "opt (appOptions options testAppInfo testAppPath) ''welcome'' = JBool False"
    "opt (appOptions options testAppInfo testAppPath) ''ciProvider'' = JStr ''travis''"
    "opt (appOptions options testAppInfo testAppPath) ''target'' = JStr testAppPath"
    by (simp_all add: opt_def map_of_appOptions testAppInfo_raw [OF assms(3)])
  show ?thesis
    using first stripped kept set_keys by blast
qed

theorem nested_generator_options_witness:
  "distinct (map fst sample_options)
   \<and> lookupBlueprint sample_env ''app''
   \<and> testAppInfoFromOptions sample_libs sample_options = Inr sample_testAppInfo
   \<and> call_path_join sample_libs [opt sample_options ''target'', field sample_testAppInfo ''location'']
       = Inr ''/tmp/x/test-app''
   \<and> opt (appOptions sample_options sample_testAppInfo ''/tmp/x/test-app'') ''skipNpm'' = JBool True
   \<and> opt (appOptions sample_options sample_testAppInfo ''/tmp/x/test-app'') ''welcome'' = JBool False"
proof -
  have d: "distinct (map fst sample_options)"
    by (simp add: sample_options_def)
  have l: "lookupBlueprint sample_env ''app''"
    by (simp add: sample_env_def)
  have i: "testAppInfoFromOptions sample_libs sample_options = Inr sample_testAppInfo"
    by code_simp
  have p: "call_path_join sample_libs [opt sample_options ''target'', field sample_testAppInfo ''location'']
       = Inr ''/tmp/x/test-app''"
    by code_simp
  show ?thesis
    using d l i p nested_generator_options [OF d l i p, of sample_run] by blast
qed

text \<open>
  C2 as stated fails for the key \<open>target\<close>, which the claim does not list among the
  changed ones: for the target \<open>/tmp/x\<close> the nested generator receives
  \<open>/tmp/x/test-app\<close>.
\<close>

theorem nested_generator_target_counterexample:
  "opt sample_options ''target'' = JStr ''/tmp/x''
   \<and> take 1 (trace (snd (afterInstall sample_env sample_libs sample_options sample_run))) =
       [Install sample_appOptions]
   \<and> opt sample_appOptions ''target'' = JStr ''/tmp/x/test-app''"
  by code_simp

section \<open>Properties of the recursive merge\<close>

lemma merge_obj_other_keys:
  "merge_obj d s = Some r \<Longrightarrow> k \<notin> fst ` set s \<Longrightarrow> map_of r k = map_of d k"
proof (induction s arbitrary: d)
  case Nil
  then show ?case by simp
next
  case (Cons x s)
  obtain k' sv where x: "x = (k', sv)" by (cases x)
  from Cons.prems(1) obtain v where v: "merge_value (map_of d k') sv = Some v"
      and rest: "merge_obj (AList.update k' v d) s = Some r"
    by (auto simp: x split: option.splits)
  have "map_of r k = map_of (AList.update k' v d) k"
    using Cons.IH [OF rest] Cons.prems(2) by simp
  then show ?case
    using Cons.prems(2) by (simp add: x update_conv')
qed

lemma merge_obj_merged_keys:
  "merge_obj d s = Some r \<Longrightarrow> distinct (map fst s) \<Longrightarrow> (k, sv) \<in> set s \<Longrightarrow>
   \<exists>dv v. merge_value dv sv = Some v \<and> map_of r k = Some v"
proof (induction s arbitrary: d)
  case Nil
  then show ?case by simp
next
  case (Cons x s)
  obtain k' sv' where x: "x = (k', sv')" by (cases x)
  from Cons.prems(1) obtain v where v: "merge_value (map_of d k') sv' = Some v"
      and rest: "merge_obj (AList.update k' v d) s = Some r"
    by (auto simp: x split: option.splits)
  have dist: "distinct (map fst s)" and fresh: "k' \<notin> fst ` set s"
    using Cons.prems(2) by (auto simp: x)
  show ?case
  proof (cases "(k, sv) = (k', sv')")
    case True
    have "map_of r k' = map_of (AList.update k' v d) k'"
      by (rule merge_obj_other_keys [OF rest fresh])
    then have "map_of r k = Some v"
      using True by (simp add: update_conv')
    then show ?thesis using v True by blast
  next
    case False
    then have "(k, sv) \<in> set s" using Cons.prems(3) by (auto simp: x)
    then show ?thesis by (rule Cons.IH [OF rest dist])
  qed
qed

lemma merge_obj_stable:
  "(\<And>k sv. (k, sv) \<in> set s \<Longrightarrow> \<exists>v. map_of r k = Some v \<and> merge_value (Some v) sv = Some v) \<Longrightarrow>
   merge_obj r s = Some r"
proof (induction s)
  case Nil
  show ?case by simp
next
  case (Cons x s)
  obtain k sv where x: "x = (k, sv)" by (cases x)
  from Cons.prems [of k sv] obtain v where v: "map_of r k = Some v" "merge_value (Some v) sv = Some v"
    by (auto simp: x)
  have same: "AList.update k v r = r"
    using v(1) by (rule update_triv)
  have "merge_obj r s = Some r"
    by (rule Cons.IH) (simp add: Cons.prems x)
  then show ?case
    using v same by (simp add: x)
qed

lemma merge_obj_idem:
  assumes step: "\<And>k sv dv v. (k, sv) \<in> set s \<Longrightarrow> merge_value dv sv = Some v \<Longrightarrow>
                    merge_value (Some v) sv = Some v"
    and "distinct (map fst s)" "merge_obj d s = Some r"
  shows "merge_obj r s = Some r"
proof (rule merge_obj_stable)
  fix k sv assume m: "(k, sv) \<in> set s"
  from merge_obj_merged_keys [OF assms(3) assms(2) m]
  obtain dv v where "merge_value dv sv = Some v" "map_of r k = Some v" by blast
  then show "\<exists>v. map_of r k = Some v \<and> merge_value (Some v) sv = Some v"
    using step [OF m] by blast
qed

lemma merge_arr_idem:
  "(\<And>sv dv v. sv \<in> set s \<Longrightarrow> merge_value dv sv = Some v \<Longrightarrow> merge_value (Some v) sv = Some v) \<Longrightarrow>
   merge_arr d s = Some r \<Longrightarrow> merge_arr r s = Some r"
proof (induction s arbitrary: d r)
  case Nil
  show ?case by simp
next
  case (Cons sv s)
  obtain dv d' where first: "merge_value dv sv \<noteq> None"
      and shape: "\<exists>v r'. merge_value dv sv = Some v \<and> merge_arr d' s = Some r' \<and> r = v # r'"
    using Cons.prems(2) by (cases d) (auto split: option.splits)
  then obtain v r' where v: "merge_value dv sv = Some v" and r': "merge_arr d' s = Some r'"
      and r: "r = v # r'"
    by blast
  have again: "merge_value (Some v) sv = Some v"
    using Cons.prems(1) [of sv dv v] v by simp
  have "merge_arr r' s = Some r'"
    using Cons.IH [OF _ r'] Cons.prems(1) by simp
  then show ?case
    using again by (simp add: r)
qed

lemma merge_value_idem:
  "wf_json sv \<Longrightarrow> merge_value dv sv = Some v \<Longrightarrow> merge_value (Some v) sv = Some v"
proof (induction sv arbitrary: dv v)
  case (JArr xs)
  have step: "\<And>x dv v. x \<in> set xs \<Longrightarrow> merge_value dv x = Some v \<Longrightarrow> merge_value (Some v) x = Some v"
    using JArr.IH JArr.prems(1) by (simp add: list_all_iff)
  from JArr.prems(2) obtain d r where "merge_arr d xs = Some r" "v = JArr r"
    by (auto split: option.splits jsval.splits if_splits)
  then show ?case
    using merge_arr_idem [OF step] by simp
next
  case (JObj kvs)
  have step: "\<And>k x dv v. (k, x) \<in> set kvs \<Longrightarrow> merge_value dv x = Some v \<Longrightarrow>
      merge_value (Some v) x = Some v"
  proof -
    fix k x dv v assume m: "(k, x) \<in> set kvs" and mv: "merge_value dv x = Some v"
    have "wf_json x" using JObj.prems(1) m by (auto simp: list_all_iff)
    moreover have "x \<in> Basic_BNFs.snds (k, x)" by simp
    ultimately show "merge_value (Some v) x = Some v"
      using JObj.IH m mv by blast
  qed
  have dist: "distinct (map fst kvs)" using JObj.prems(1) by simp
  from JObj.prems(2) obtain d r where "merge_obj d kvs = Some r" "v = JObj r"
    by (auto split: option.splits jsval.splits)
  then show ?case
    using merge_obj_idem [OF step dist] by simp
qed (auto split: option.splits)

text \<open>
  A fragment that carries an object of \<open>devDependencies\<close> leaves one in every manifest
  it is merged into, so that the entry of the addon can be set.
\<close>

lemma merged_devDependencies:
  assumes "distinct (map fst s)" "(''devDependencies'', JObj sd) \<in> set s"
      "merge_obj d s = Some r"
  shows "\<exists>deps. opt r ''devDependencies'' = JObj deps"
proof -
  from merge_obj_merged_keys [OF assms(3) assms(1) assms(2)]
  obtain dv v where v: "merge_value dv (JObj sd) = Some v" "map_of r ''devDependencies'' = Some v"
    by blast
  from v(1) obtain deps where "v = JObj deps"
    by (auto split: option.splits jsval.splits)
  then show ?thesis
    using v(2) by (simp add: opt_def)
qed

text \<open>
  C6. Merging the fragment a second time changes nothing, not even the order of the
  keys: after the key sort the serialized text is the one of a single merge.
\<close>

theorem merge_twice:
  assumes "wf_json additions" "deep_merge pkg additions = Some merged"
  shows "deep_merge merged additions = Some merged
         \<and> map_option (\<lambda>m. JSON_stringify L (sortPackageJson L m) 2) (deep_merge merged additions) =
             map_option (\<lambda>m. JSON_stringify L (sortPackageJson L m) 2) (deep_merge pkg additions)"
proof -
  from assms(2) obtain d s r where shape: "pkg = JObj d" "additions = JObj s"
      "merge_obj d s = Some r" "merged = JObj r"
    by (auto simp: deep_merge_def split: jsval.splits)
  have "merge_value (Some (JObj d)) (JObj s) = Some (JObj r)"
    using shape(3) by simp
  then have "merge_value (Some (JObj r)) (JObj s) = Some (JObj r)"
    using merge_value_idem assms(1) shape(2) by blast
  then have "deep_merge merged additions = Some merged"
    by (auto simp: deep_merge_def shape)
  then show ?thesis
    using assms(2) by simp
qed

theorem merge_twice_witness:
  "wf_json sample_additions
   \<and> deep_merge sample_manifest sample_additions = Some sample_merged
   \<and> deep_merge sample_merged sample_additions = Some sample_merged"
proof -
  have w: "wf_json sample_additions"
    by (simp add: sample_additions_def)
  have m: "deep_merge sample_manifest sample_additions = Some sample_merged"
    by code_simp
  show ?thesis
    using w m merge_twice [OF w m] by blast
qed

section \<open>Properties of the file system\<close>

lemma map_of_fs_remove: "map_of (fs_remove a fs) q = (if prefix a q then None else map_of fs q)"
  by (induction fs) (auto simp: fs_remove_def)

lemma map_of_put_file: "map_of (put_file True pc fs) = (map_of fs)(fst pc \<mapsto> snd pc)"
  by (simp add: put_file_def update_conv')

lemma map_of_put_files:
  "map_of (fold (put_file True) st fs) q =
     (case map_of (rev st) q of Some c \<Rightarrow> Some c | None \<Rightarrow> map_of fs q)"
proof (induction st arbitrary: fs)
  case Nil
  show ?case by simp
next
  case (Cons pc st)
  have "map_of (fold (put_file True) (pc # st) fs) q =
      (case map_of (rev st) q of Some c \<Rightarrow> Some c | None \<Rightarrow> map_of (put_file True pc fs) q)"
    by (simp add: Cons.IH)
  then show ?case
    by (cases pc) (auto simp: map_of_put_file map_add_def split: option.splits)
qed

lemma staged_member:
  "(q, c) \<in> set (staged a b fs) \<longleftrightarrow> (\<exists>r. q = b @ r \<and> (a @ r, c) \<in> set fs)"
proof
  assume "(q, c) \<in> set (staged a b fs)"
  then obtain p where p: "(p, c) \<in> set fs" "prefix a p" "q = b @ drop (length a) p"
    by (auto simp: staged_def)
  from p(2) obtain r where "p = a @ r" by (auto simp: prefix_def)
  then show "\<exists>r. q = b @ r \<and> (a @ r, c) \<in> set fs"
    using p by auto
next
  assume "\<exists>r. q = b @ r \<and> (a @ r, c) \<in> set fs"
  then obtain r where "q = b @ r" "(a @ r, c) \<in> set fs" by blast
  then show "(q, c) \<in> set (staged a b fs)"
    by (force simp: staged_def)
qed

lemma staged_Cons:
  "staged a b ((p, c) # fs) =
     (if prefix a p then (b @ drop (length a) p, c) # staged a b fs else staged a b fs)"
  by (simp add: staged_def)

lemma distinct_staged:
  "distinct (map fst fs) \<Longrightarrow> distinct (map fst (staged a b fs))"
proof (induction fs)
  case Nil
  show ?case by (simp add: staged_def)
next
  case (Cons x fs)
  obtain p c where x: "x = (p, c)" by (cases x)
  have IH: "distinct (map fst (staged a b fs))" using Cons by simp
  show ?case
  proof (cases "prefix a p")
    case False
    then show ?thesis using IH by (simp add: staged_Cons x)
  next
    case True
    then obtain r where r: "p = a @ r" by (auto simp: prefix_def)
    have "b @ r \<notin> fst ` set (staged a b fs)"
    proof
      assume "b @ r \<in> fst ` set (staged a b fs)"
      then obtain c' where "(b @ r, c') \<in> set (staged a b fs)" by auto
      then have "(a @ r, c') \<in> set fs" by (auto simp: staged_member)
      then have "p \<in> fst ` set fs" using r by force
      then show False using Cons.prems by (simp add: x)
    qed
    then show ?thesis using IH True r by (simp add: staged_Cons x)
  qed
qed

lemma map_of_staged:
  assumes "distinct (map fst fs)"
  shows "map_of (rev (staged a b fs)) (b @ r) = map_of fs (a @ r)"
proof -
  have d: "distinct (map fst (staged a b fs))" using assms by (rule distinct_staged)
  then have d': "distinct (map fst (rev (staged a b fs)))" by (simp add: rev_map [symmetric])
  show ?thesis
  proof (cases "map_of fs (a @ r)")
    case None
    then have "\<And>c. (a @ r, c) \<notin> set fs" by (force simp: map_of_eq_None_iff)
    then have "\<And>c. (b @ r, c) \<notin> set (rev (staged a b fs))" by (auto simp: staged_member)
    then have "map_of (rev (staged a b fs)) (b @ r) = None"
      by (meson map_of_SomeD not_None_eq)
    then show ?thesis using None by simp
  next
    case (Some c)
    then have "(a @ r, c) \<in> set fs" by (rule map_of_SomeD)
    then have "(b @ r, c) \<in> set (rev (staged a b fs))" by (auto simp: staged_member)
    then have "map_of (rev (staged a b fs)) (b @ r) = Some c"
      using d' by (simp only: map_of_is_SomeI)
    then show ?thesis using Some by simp
  qed
qed

lemma map_of_staged_elsewhere:
  "(\<And>r. q \<noteq> b @ r) \<Longrightarrow> map_of (rev (staged a b fs)) q = None"
proof -
  assume n: "\<And>r. q \<noteq> b @ r"
  have "\<And>c. (q, c) \<notin> set (rev (staged a b fs))" using n by (auto simp: staged_member)
  then show ?thesis by (meson map_of_SomeD not_None_eq)
qed

text \<open>
  C4. On the file system, with the staging directory at \<open>a\<close> and the destination at
  \<open>b\<close>: after \<open>overrideTestAppFiles\<close> has succeeded, every file of the staging
  directory is in the destination under the same relative path with its content
  (where that place is not itself inside the staging directory), a file that was
  there before is replaced by it, every file outside the staging directory whose
  relative path does not occur in the staging directory is there as before, and the
  staging directory is gone.
\<close>

theorem overlay_keeps_other_files:
  assumes "perform E = fs_perform cwd"
      "distinct (map fst (world s))"
      "resolve cwd overridesPath = Some a"
      "resolve cwd testAppPath = Some b"
      "overrideTestAppFiles E testAppPath overridesPath s = (None, s')"
  shows "(\<forall>r c. map_of (world s) (a @ r) = Some c \<longrightarrow> \<not> prefix a (b @ r) \<longrightarrow>
            map_of (world s') (b @ r) = Some c)
         \<and> (\<forall>q c. map_of (world s) q = Some c \<longrightarrow> \<not> prefix a q \<longrightarrow>
              (\<forall>r. q = b @ r \<longrightarrow> map_of (world s) (a @ r) = None) \<longrightarrow>
              map_of (world s') q = Some c)
         \<and> (\<forall>q. prefix a q \<longrightarrow> map_of (world s') q = None)"
proof -
  let ?fs = "world s"
  obtain r1 s1 where c: "invoke E (Copy overridesPath testAppPath True) s = (r1, s1)"
    by (cases "invoke E (Copy overridesPath testAppPath True) s")
  have r1: "r1 = None" and rm: "invoke E (Remove overridesPath) s1 = (None, s')"
    using assms(5) c by (auto simp: overrideTestAppFiles_def split: option.splits)
  have copy: "fs_copy a b True ?fs = (None, world s1)"
    using c r1 assms(1,3,4) by (auto simp: invoke_def fs_perform_def split: prod.splits)
  then have w1: "world s1 = fold (put_file True) (staged a b ?fs) ?fs"
    by (auto simp: fs_copy_def split: if_splits)
  have w': "world s' = fs_remove a (world s1)"
    using rm assms(1,3) by (auto simp: invoke_def fs_perform_def split: prod.splits)
  have look: "map_of (world s') q =
      (if prefix a q then None
       else case map_of (rev (staged a b ?fs)) q of Some c \<Rightarrow> Some c | None \<Rightarrow> map_of ?fs q)" for q
    by (simp add: w' w1 map_of_fs_remove map_of_put_files)
  have 1: "map_of (world s') (b @ r) = Some c"
    if "map_of ?fs (a @ r) = Some c" "\<not> prefix a (b @ r)" for r c
    using that by (simp add: look map_of_staged [OF assms(2)])
  have 2: "map_of (world s') q = Some c"
    if "map_of ?fs q = Some c" "\<not> prefix a q" "\<forall>r. q = b @ r \<longrightarrow> map_of ?fs (a @ r) = None" for q c
  proof (cases "\<exists>r. q = b @ r")
    case True
    then obtain r where r: "q = b @ r" by blast
    then have "map_of (rev (staged a b ?fs)) q = None"
      using that(3) by (simp add: map_of_staged [OF assms(2)])
    then show ?thesis using that(1,2) by (simp add: look)
  next
    case False
    then have "map_of (rev (staged a b ?fs)) q = None"
      by (intro map_of_staged_elsewhere) blast
    then show ?thesis using that(1,2) by (simp add: look)
  qed
  have 3: "map_of (world s') q = None" if "prefix a q" for q
    using that by (simp add: look)
  show ?thesis using 1 2 3 by blast
qed

theorem overlay_keeps_other_files_witness:
  "perform sample_env = fs_perform sample_cwd
   \<and> distinct (map fst (world sample_run))
   \<and> resolve sample_cwd (JStr ''test-app-overrides'') = Some [''tmp'', ''x'', ''test-app-overrides'']
   \<and> resolve sample_cwd (JStr ''test-app'') = Some [''tmp'', ''x'', ''test-app'']
   \<and> overrideTestAppFiles sample_env (JStr ''test-app'') (JStr ''test-app-overrides'') sample_run =
       (None, overlaid_run)
   \<and> map_of (world overlaid_run) ([''tmp'', ''x'', ''test-app''] @ [''app'', ''router.js'']) =
       Some ''override''
   \<and> map_of (world overlaid_run) [''tmp'', ''x'', ''test-app'', ''app'', ''app.js''] = Some ''generated''"
proof -
  have p: "perform sample_env = fs_perform sample_cwd"
    by (simp add: sample_env_def)
  have d: "distinct (map fst (world sample_run))"
    by (simp add: sample_run_def sample_files_def)
  have a: "resolve sample_cwd (JStr ''test-app-overrides'') = Some [''tmp'', ''x'', ''test-app-overrides'']"
    by code_simp
  have b: "resolve sample_cwd (JStr ''test-app'') = Some [''tmp'', ''x'', ''test-app'']"
    by code_simp
  have run: "overrideTestAppFiles sample_env (JStr ''test-app'') (JStr ''test-app-overrides'') sample_run =
       (None, overlaid_run)"
    by code_simp
  have B: "map_of (world sample_run) ([''tmp'', ''x'', ''test-app-overrides''] @ [''app'', ''router.js''])
             = Some ''override''"
    by (simp add: sample_run_def sample_files_def)
  have nB: "\<not> prefix [''tmp'', ''x'', ''test-app-overrides'']
              ([''tmp'', ''x'', ''test-app''] @ [''app'', ''router.js''])"
    by simp
  have A: "map_of (world sample_run) [''tmp'', ''x'', ''test-app'', ''app'', ''app.js''] = Some ''generated''"
    by (simp add: sample_run_def sample_files_def)
  have nA: "\<not> prefix [''tmp'', ''x'', ''test-app-overrides''] [''tmp'', ''x'', ''test-app'', ''app'', ''app.js'']"
    by simp
  have fresh: "\<forall>r. [''tmp'', ''x'', ''test-app'', ''app'', ''app.js''] = [''tmp'', ''x'', ''test-app''] @ r
      \<longrightarrow> map_of (world sample_run) ([''tmp'', ''x'', ''test-app-overrides''] @ r) = None"
    by (simp add: sample_run_def sample_files_def)
  show ?thesis
    using p d a b run B nB A nA fresh overlay_keeps_other_files [OF p d a b run]
    by blast
qed

section \<open>Properties of the package manifest patcher\<close>









end
